theory Spec2Isabelle
  imports Main
begin

section \<open>Exceptions\<close>

text \<open>
  The three exception classes of \<^verbatim>\<open>exceptions.py\<close> and the classes the interpreter, the
  standard library and the wrapped library can raise.  \<open>OtherException n\<close> is any other
  subclass of \<^verbatim>\<open>Exception\<close> (an \<^verbatim>\<open>OSError\<close>, the library's \<^verbatim>\<open>ErrorResponse\<close>, ...);
  \<open>OtherBaseException n\<close> is a class below \<^verbatim>\<open>BaseException\<close> only
  (\<^verbatim>\<open>KeyboardInterrupt\<close>, \<^verbatim>\<open>SystemExit\<close>, \<^verbatim>\<open>asyncio.CancelledError\<close>), which
  \<^verbatim>\<open>except Exception\<close> does not catch and a bare \<^verbatim>\<open>except:\<close> does.
\<close>

datatype exn_class =
    IPFSError
  | IPFSConnectionError
  | IPFSTimeoutError
  | AttributeError
  | KeyError
  | TypeError
  | UnicodeDecodeError
  | UnicodeEncodeError
  | JSONDecodeError
  | OtherException string
  | OtherBaseException string

text \<open>
  The text of an exception, \<^verbatim>\<open>str(e)\<close>: a literal, an f-string made of a literal prefix
  and the text of what it embeds, or the text the interpreter chose for an exception of
  its own (its wording changes between Python versions and is left open).
\<close>

datatype message = Literal string | Formatted string message | InterpreterText

datatype exn = Exn (cls: exn_class) (str_of: message)

fun is_Exception :: "exn_class \<Rightarrow> bool" where
  "is_Exception (OtherBaseException n) = False"
| "is_Exception c = True"

text \<open>The classes of \<^verbatim>\<open>exceptions.py\<close>: the component's own error kinds.\<close>

fun is_client_error :: "exn_class \<Rightarrow> bool" where
  "is_client_error IPFSError = True"
| "is_client_error IPFSConnectionError = True"
| "is_client_error IPFSTimeoutError = True"
| "is_client_error c = False"

section \<open>Python values\<close>

text \<open>
  A \<^verbatim>\<open>str\<close> is its list of code points, a \<^verbatim>\<open>bytes\<close> object its list of bytes.  A dictionary
  keeps its items in insertion order.  A \<^verbatim>\<open>float\<close> is held as the text \<^verbatim>\<open>repr()\<close> writes for it
  (\<^verbatim>\<open>1.5\<close>, \<^verbatim>\<open>1e+16\<close>, \<^verbatim>\<open>inf\<close>, \<^verbatim>\<open>nan\<close>): two floats that print the same are the same float,
  and the arithmetic that finds the text is the interpreter's.
\<close>

type_synonym pystr = "nat list"
type_synonym bytes = "char list"

datatype pyval =
    PyNone
  | PyBool bool
  | PyInt int
  | PyFloat pystr
  | PyStr pystr
  | PyBytes bytes
  | PyList "pyval list"
  | PyTuple "pyval list"
  | PyDict "(pyval \<times> pyval) list"

definition ascii :: "string \<Rightarrow> pystr" where
  "ascii s = map of_char s"

definition ascii_only :: "pystr \<Rightarrow> bool" where
  "ascii_only t = list_all (\<lambda>c. c < 128) t"

subsection \<open>\<^verbatim>\<open>bytes.decode()\<close> and \<^verbatim>\<open>str.encode()\<close>: strict UTF-8\<close>

text \<open>
  For a lead byte: the number of continuation bytes, the range allowed for the first of
  them, and the payload bits of the lead byte.  Overlong forms, surrogates and values
  above U+10FFFF are rejected, as the strict codec does.
\<close>

definition utf8_lead :: "nat \<Rightarrow> (nat \<times> nat \<times> nat \<times> nat) option" where
  "utf8_lead b =
     (if 0xC2 \<le> b \<and> b \<le> 0xDF then Some (1, 0x80, 0xBF, b - 0xC0)
      else if b = 0xE0 then Some (2, 0xA0, 0xBF, 0)
      else if b = 0xED then Some (2, 0x80, 0x9F, 0xD)
      else if 0xE1 \<le> b \<and> b \<le> 0xEF then Some (2, 0x80, 0xBF, b - 0xE0)
      else if b = 0xF0 then Some (3, 0x90, 0xBF, 0)
      else if 0xF1 \<le> b \<and> b \<le> 0xF3 then Some (3, 0x80, 0xBF, b - 0xF0)
      else if b = 0xF4 then Some (3, 0x80, 0x8F, 4)
      else None)"

definition is_cont :: "nat \<Rightarrow> bool" where
  "is_cont c = (0x80 \<le> c \<and> c \<le> 0xBF)"

fun utf8_points :: "nat list \<Rightarrow> pystr option" where
  "utf8_points [] = Some []"
| "utf8_points (b # bs) =
     (if b < 0x80 then map_option ((#) b) (utf8_points bs)
      else
        (case utf8_lead b of
           None \<Rightarrow> None
         | Some (n, lo, hi, v) \<Rightarrow>
             (case take n bs of
                [] \<Rightarrow> None
              | c # cs \<Rightarrow>
                  if length (c # cs) = n \<and> lo \<le> c \<and> c \<le> hi \<and> list_all is_cont cs
                  then map_option ((#) (foldl (\<lambda>a x. a * 64 + (x - 0x80)) v (c # cs)))
                         (utf8_points (drop n bs))
                  else None)))"

definition bytes_decode :: "bytes \<Rightarrow> exn + pystr" where
  "bytes_decode data =
     (case utf8_points (map of_char data) of
        None \<Rightarrow> Inl (Exn UnicodeDecodeError InterpreterText)
      | Some s \<Rightarrow> Inr s)"

definition utf8_unit :: "nat \<Rightarrow> nat list option" where
  "utf8_unit c =
     (if c < 0x80 then Some [c]
      else if c < 0x800 then Some [0xC0 + c div 64, 0x80 + c mod 64]
      else if 0xD800 \<le> c \<and> c \<le> 0xDFFF then None
      else if c < 0x10000 then
        Some [0xE0 + c div 4096, 0x80 + c div 64 mod 64, 0x80 + c mod 64]
      else if c < 0x110000 then
        Some [0xF0 + c div 262144, 0x80 + c div 4096 mod 64, 0x80 + c div 64 mod 64,
              0x80 + c mod 64]
      else None)"

fun utf8_bytes :: "pystr \<Rightarrow> nat list option" where
  "utf8_bytes [] = Some []"
| "utf8_bytes (c # cs) =
     (case utf8_unit c of
        None \<Rightarrow> None
      | Some u \<Rightarrow> map_option ((@) u) (utf8_bytes cs))"

definition str_encode :: "pystr \<Rightarrow> exn + bytes" where
  "str_encode s =
     (case utf8_bytes s of
        None \<Rightarrow> Inl (Exn UnicodeEncodeError InterpreterText)
      | Some bs \<Rightarrow> Inr (map char_of bs))"

section \<open>The interpreter\<close>

text \<open>
  What the \<^verbatim>\<open>json\<close> module takes from the interpreter it runs in:

    \<^item> \<open>int_max_str_digits\<close> is \<^verbatim>\<open>sys.get_int_max_str_digits()\<close>, the longest decimal text an
      integer may be converted to or from, \<open>0\<close> when there is no limit (the default is 4300;
      an interpreter accepts no other value below 640);
    \<^item> \<open>encoder_depth\<close> and \<open>decoder_depth\<close> are the numbers of nested lists and dictionaries
      that \<^verbatim>\<open>json.dumps\<close> and \<^verbatim>\<open>json.loads\<close> can enter before the recursion limit is
      reached;
    \<^item> \<open>float_repr l\<close> is \<^verbatim>\<open>repr(float(l))\<close> for a number literal \<open>l\<close>: the conversions between
      a float and decimal text are the interpreter's arithmetic.
\<close>

record python =
  int_max_str_digits :: nat
  encoder_depth :: nat
  decoder_depth :: nat
  float_repr :: "pystr \<Rightarrow> pystr"

definition exceeds_digits :: "python \<Rightarrow> nat \<Rightarrow> bool" where
  "exceeds_digits P n = (0 < int_max_str_digits P \<and> int_max_str_digits P < n)"

definition value_error :: exn where
  "value_error = Exn (OtherException ''ValueError'') InterpreterText"

definition recursion_error :: exn where
  "recursion_error = Exn (OtherException ''RecursionError'') InterpreterText"

definition decode_error :: exn where
  "decode_error = Exn JSONDecodeError InterpreterText"

section \<open>The \<^verbatim>\<open>json\<close> module\<close>

text \<open>
  \<^verbatim>\<open>json.dumps\<close> and \<^verbatim>\<open>json.loads\<close> of the standard library with their default arguments,
  as the C encoder and scanner run them.
\<close>

subsection \<open>\<^verbatim>\<open>json.dumps\<close>\<close>

function dec_nat :: "nat \<Rightarrow> pystr" where
  "dec_nat n = (if n < 10 then [48 + n] else dec_nat (n div 10) @ [48 + n mod 10])"
  by pat_completeness auto
termination
  by (relation "measure id") auto

declare dec_nat.simps [simp del]

definition int_str :: "int \<Rightarrow> pystr" where
  "int_str i = (if i < 0 then 45 # dec_nat (nat (- i)) else dec_nat (nat i))"

text \<open>
  \<^verbatim>\<open>int.__repr__\<close>: a \<^verbatim>\<open>ValueError\<close> when the integer has more digits than the interpreter
  converts.
\<close>

definition int_repr :: "python \<Rightarrow> int \<Rightarrow> exn + pystr" where
  "int_repr P i =
     (if exceeds_digits P (length (dec_nat (nat \<bar>i\<bar>))) then Inl value_error
      else Inr (int_str i))"

text \<open>
  The text for a float: \<^verbatim>\<open>float.__repr__\<close>, and the names JavaScript has for the values that
  are not numbers (\<^verbatim>\<open>allow_nan=True\<close>).
\<close>

definition float_str :: "pystr \<Rightarrow> pystr" where
  "float_str x =
     (if x = ascii ''nan'' then ascii ''NaN''
      else if x = ascii ''inf'' then ascii ''Infinity''
      else if x = ascii ''-inf'' then ascii ''-Infinity''
      else x)"

definition hex_digit :: "nat \<Rightarrow> nat" where
  "hex_digit d = (if d < 10 then 48 + d else 87 + d)"

definition hex4 :: "nat \<Rightarrow> pystr" where
  "hex4 c = [hex_digit (c div 4096 mod 16), hex_digit (c div 256 mod 16),
             hex_digit (c div 16 mod 16), hex_digit (c mod 16)]"

text \<open>
  One code point of a string under \<^verbatim>\<open>ensure_ascii=True\<close>: the short escapes, the
  printable ASCII characters as they are, \<^verbatim>\<open>\uXXXX\<close> for the rest, with a surrogate pair
  above U+FFFF.
\<close>

definition escape_point :: "nat \<Rightarrow> pystr" where
  "escape_point c =
     (if c = 34 then [92, 34]
      else if c = 92 then [92, 92]
      else if c = 10 then [92, 110]
      else if c = 13 then [92, 114]
      else if c = 9 then [92, 116]
      else if c = 12 then [92, 102]
      else if c = 8 then [92, 98]
      else if 32 \<le> c \<and> c \<le> 126 then [c]
      else if c < 0x10000 then [92, 117] @ hex4 c
      else [92, 117] @ hex4 (0xD800 + (c - 0x10000) div 1024) @
           [92, 117] @ hex4 (0xDC00 + (c - 0x10000) mod 1024))"

definition encode_str :: "pystr \<Rightarrow> pystr" where
  "encode_str s = [34] @ concat (map escape_point s) @ [34]"

text \<open>
  A dictionary key: a string as it is; a float, \<^verbatim>\<open>True\<close>, \<^verbatim>\<open>False\<close>, \<^verbatim>\<open>None\<close> and an integer
  are turned into strings; anything else is a \<^verbatim>\<open>TypeError\<close>.
\<close>

fun key_str :: "python \<Rightarrow> pyval \<Rightarrow> exn + pystr" where
  "key_str P (PyStr s) = Inr s"
| "key_str P (PyFloat x) = Inr (float_str x)"
| "key_str P (PyBool b) = Inr (ascii (if b then ''true'' else ''false''))"
| "key_str P PyNone = Inr (ascii ''null'')"
| "key_str P (PyInt i) = int_repr P i"
| "key_str P k = Inl (Exn TypeError InterpreterText)"

text \<open>
  The encoder.  The number \<open>n\<close> is how many nested lists and dictionaries it can still
  enter: entering one at \<open>0\<close> is a \<^verbatim>\<open>RecursionError\<close>.  A tuple is written as a list is.
\<close>

fun dumps :: "python \<Rightarrow> nat \<Rightarrow> pyval \<Rightarrow> exn + pystr"
  and dumps_list :: "python \<Rightarrow> nat \<Rightarrow> pyval list \<Rightarrow> exn + pystr"
  and dumps_items :: "python \<Rightarrow> nat \<Rightarrow> (pyval \<times> pyval) list \<Rightarrow> exn + pystr"
where
  "dumps P n PyNone = Inr (ascii ''null'')"
| "dumps P n (PyBool b) = Inr (ascii (if b then ''true'' else ''false''))"
| "dumps P n (PyInt i) = int_repr P i"
| "dumps P n (PyFloat x) = Inr (float_str x)"
| "dumps P n (PyStr s) = Inr (encode_str s)"
| "dumps P n (PyBytes b) = Inl (Exn TypeError InterpreterText)"
| "dumps P n (PyList xs) =
     (if n = 0 then Inl recursion_error
      else (case dumps_list P (n - 1) xs of Inl e \<Rightarrow> Inl e | Inr t \<Rightarrow> Inr ([91] @ t @ [93])))"
| "dumps P n (PyTuple xs) =
     (if n = 0 then Inl recursion_error
      else (case dumps_list P (n - 1) xs of Inl e \<Rightarrow> Inl e | Inr t \<Rightarrow> Inr ([91] @ t @ [93])))"
| "dumps P n (PyDict kvs) =
     (if n = 0 then Inl recursion_error
      else (case dumps_items P (n - 1) kvs of
              Inl e \<Rightarrow> Inl e
            | Inr t \<Rightarrow> Inr ([123] @ t @ [125])))"
| "dumps_list P n [] = Inr []"
| "dumps_list P n (x # xs) =
     (case dumps P n x of
        Inl e \<Rightarrow> Inl e
      | Inr t \<Rightarrow>
          if xs = [] then Inr t
          else (case dumps_list P n xs of Inl e \<Rightarrow> Inl e | Inr r \<Rightarrow> Inr (t @ [44, 32] @ r)))"
| "dumps_items P n [] = Inr []"
| "dumps_items P n (kv # kvs) =
     (case key_str P (fst kv) of
        Inl e \<Rightarrow> Inl e
      | Inr k \<Rightarrow>
          (case dumps P n (snd kv) of
             Inl e \<Rightarrow> Inl e
           | Inr t \<Rightarrow>
               if kvs = [] then Inr (encode_str k @ [58, 32] @ t)
               else (case dumps_items P n kvs of
                       Inl e \<Rightarrow> Inl e
                     | Inr r \<Rightarrow> Inr (encode_str k @ [58, 32] @ t @ [44, 32] @ r))))"

definition json_dumps :: "python \<Rightarrow> pyval \<Rightarrow> exn + pystr" where
  "json_dumps P v = dumps P (encoder_depth P) v"

subsection \<open>\<^verbatim>\<open>json.loads\<close>\<close>

definition is_ws :: "nat \<Rightarrow> bool" where
  "is_ws c = (c = 32 \<or> c = 9 \<or> c = 10 \<or> c = 13)"

definition skip_ws :: "pystr \<Rightarrow> pystr" where
  "skip_ws cs = dropWhile is_ws cs"

definition is_digit :: "nat \<Rightarrow> bool" where
  "is_digit c = (48 \<le> c \<and> c \<le> 57)"

definition hex_val :: "nat \<Rightarrow> nat option" where
  "hex_val c =
     (if 48 \<le> c \<and> c \<le> 57 then Some (c - 48)
      else if 97 \<le> c \<and> c \<le> 102 then Some (c - 87)
      else if 65 \<le> c \<and> c \<le> 70 then Some (c - 55)
      else None)"

text \<open>The four hexadecimal digits of a \<^verbatim>\<open>\uXXXX\<close> escape.\<close>

definition hex4_val :: "pystr \<Rightarrow> nat option" where
  "hex4_val cs =
     (case map hex_val cs of
        [Some a, Some b, Some c, Some d] \<Rightarrow> Some (((a * 16 + b) * 16 + c) * 16 + d)
      | _ \<Rightarrow> None)"

definition simple_escape :: "nat \<Rightarrow> nat option" where
  "simple_escape e =
     (if e = 34 then Some 34
      else if e = 92 then Some 92
      else if e = 47 then Some 47
      else if e = 98 then Some 8
      else if e = 102 then Some 12
      else if e = 110 then Some 10
      else if e = 114 then Some 13
      else if e = 116 then Some 9
      else None)"

text \<open>
  The low surrogate that follows a high surrogate as a second \<^verbatim>\<open>\uXXXX\<close> escape, when
  there is one.
\<close>

definition low_surrogate :: "pystr \<Rightarrow> nat option" where
  "low_surrogate cs =
     (case cs of
        b # u # r \<Rightarrow>
          if b = 92 \<and> u = 117 then
            (case hex4_val (take 4 r) of
               None \<Rightarrow> None
             | Some l \<Rightarrow> if 0xDC00 \<le> l \<and> l \<le> 0xDFFF then Some l else None)
          else None
      | _ \<Rightarrow> None)"

text \<open>
  The body of a string, after its opening quote: the decoded code points and the text
  after the closing quote.  Control characters are refused (\<^verbatim>\<open>strict=True\<close>).
\<close>

fun scan_string :: "pystr \<Rightarrow> (pystr \<times> pystr) option" where
  "scan_string [] = None"
| "scan_string (c # cs) =
     (if c = 34 then Some ([], cs)
      else if c = 92 then
        (case cs of
           [] \<Rightarrow> None
         | e # r \<Rightarrow>
             if e = 117 then
               (case hex4_val (take 4 r) of
                  None \<Rightarrow> None
                | Some h \<Rightarrow>
                    (case (if 0xD800 \<le> h \<and> h \<le> 0xDBFF then low_surrogate (drop 4 r)
                           else None) of
                       Some l \<Rightarrow>
                         map_option (\<lambda>(s, t). ((0x10000 + (h - 0xD800) * 1024 + (l - 0xDC00)) # s, t))
                           (scan_string (drop 10 r))
                     | None \<Rightarrow>
                         map_option (\<lambda>(s, t). (h # s, t)) (scan_string (drop 4 r))))
             else
               (case simple_escape e of
                  None \<Rightarrow> None
                | Some x \<Rightarrow> map_option (\<lambda>(s, t). (x # s, t)) (scan_string r)))
      else if c < 32 then None
      else map_option (\<lambda>(s, t). (c # s, t)) (scan_string cs))"

fun digits_val :: "nat \<Rightarrow> pystr \<Rightarrow> nat" where
  "digits_val acc [] = acc"
| "digits_val acc (d # ds) = digits_val (acc * 10 + (d - 48)) ds"

text \<open>
  The parts of a number at the head of a text, as lengths: the integer part
  \<^verbatim>\<open>0|[1-9][0-9]*\<close>, which must be there; a fraction \<^verbatim>\<open>.[0-9]+\<close>; an exponent
  \<^verbatim>\<open>[eE][-+]?[0-9]+\<close>.  The scanner takes a sign only when a character follows it, and
  gives an exponent without a digit back.
\<close>

definition int_part :: "pystr \<Rightarrow> nat option" where
  "int_part cs =
     (case cs of
        [] \<Rightarrow> None
      | c # r \<Rightarrow>
          if c = 48 then Some 1
          else if is_digit c then Some (Suc (length (takeWhile is_digit r)))
          else None)"

definition frac_part :: "pystr \<Rightarrow> nat" where
  "frac_part cs =
     (case cs of
        c # d # r \<Rightarrow> if c = 46 \<and> is_digit d then 2 + length (takeWhile is_digit r) else 0
      | _ \<Rightarrow> 0)"

definition exp_part :: "pystr \<Rightarrow> nat" where
  "exp_part cs =
     (case cs of
        c # s # r \<Rightarrow>
          if c = 101 \<or> c = 69 then
            (if (s = 43 \<or> s = 45) \<and> r \<noteq> [] then
               (if takeWhile is_digit r = [] then 0 else 2 + length (takeWhile is_digit r))
             else
               (if takeWhile is_digit (s # r) = [] then 0
                else 1 + length (takeWhile is_digit (s # r))))
          else 0
      | _ \<Rightarrow> 0)"

text \<open>The number at the head of a text, whether it is a float, and the text after it.\<close>

definition match_number :: "pystr \<Rightarrow> (pystr \<times> bool \<times> pystr) option" where
  "match_number cs =
     (let sign = (if take 1 cs = [45] then 1 else 0) in
      case int_part (drop sign cs) of
        None \<Rightarrow> None
      | Some i \<Rightarrow>
          (let f = frac_part (drop (sign + i) cs);
               e = exp_part (drop (sign + i + f) cs);
               n = sign + i + f + e
           in Some (take n cs, 0 < f \<or> 0 < e, drop n cs)))"

text \<open>
  \<^verbatim>\<open>int(numstr)\<close>, a \<^verbatim>\<open>ValueError\<close> when the literal has more digits than the interpreter
  converts, and \<^verbatim>\<open>float(numstr)\<close>.
\<close>

definition int_of_literal :: "python \<Rightarrow> pystr \<Rightarrow> exn + pyval" where
  "int_of_literal P l =
     (let ds = (if take 1 l = [45] then drop 1 l else l) in
      if exceeds_digits P (length ds) then Inl value_error
      else Inr (PyInt (if take 1 l = [45] then - int (digits_val 0 ds)
                       else int (digits_val 0 ds))))"

definition scan_number :: "python \<Rightarrow> pystr \<Rightarrow> exn + pyval \<times> pystr" where
  "scan_number P cs =
     (case match_number cs of
        None \<Rightarrow> Inl decode_error
      | Some (l, is_float, t) \<Rightarrow>
          if is_float then Inr (PyFloat (float_repr P l), t)
          else (case int_of_literal P l of Inl e \<Rightarrow> Inl e | Inr v \<Rightarrow> Inr (v, t)))"

text \<open>
  Storing an item in a dictionary under construction: a repeated key keeps its place and
  takes the later value.
\<close>

fun dict_set :: "(pyval \<times> pyval) list \<Rightarrow> pyval \<Rightarrow> pyval \<Rightarrow> (pyval \<times> pyval) list" where
  "dict_set [] k v = [(k, v)]"
| "dict_set (kv # kvs) k v = (if fst kv = k then (k, v) # kvs else kv # dict_set kvs k v)"

text \<open>
  The scanner.  The first number bounds the calls of the model, and \<open>json_loads\<close> starts it
  above what a text of that length can need; the second is how many nested arrays and
  objects the scanner can still enter: entering one at \<open>0\<close> is a \<^verbatim>\<open>RecursionError\<close>.
  \<open>scan_elements\<close> and \<open>scan_members\<close> read the items of a non-empty array and object.
\<close>

fun scan_once :: "python \<Rightarrow> nat \<Rightarrow> nat \<Rightarrow> pystr \<Rightarrow> exn + pyval \<times> pystr"
  and scan_elements ::
    "python \<Rightarrow> nat \<Rightarrow> nat \<Rightarrow> pystr \<Rightarrow> pyval list \<Rightarrow> exn + pyval \<times> pystr"
  and scan_members ::
    "python \<Rightarrow> nat \<Rightarrow> nat \<Rightarrow> pystr \<Rightarrow> (pyval \<times> pyval) list \<Rightarrow> exn + pyval \<times> pystr"
where
  "scan_once P 0 d cs = Inl decode_error"
| "scan_once P (Suc n) d cs =
     (case cs of
        [] \<Rightarrow> Inl decode_error
      | c # r \<Rightarrow>
          if c = 34 then
            (case scan_string r of None \<Rightarrow> Inl decode_error | Some (s, t) \<Rightarrow> Inr (PyStr s, t))
          else if c = 123 then
            (if d = 0 then Inl recursion_error
             else
               (case skip_ws r of
                  [] \<Rightarrow> Inl decode_error
                | q # t \<Rightarrow>
                    if q = 125 then Inr (PyDict [], t)
                    else scan_members P n (d - 1) (q # t) []))
          else if c = 91 then
            (if d = 0 then Inl recursion_error
             else
               (case skip_ws r of
                  [] \<Rightarrow> Inl decode_error
                | q # t \<Rightarrow>
                    if q = 93 then Inr (PyList [], t)
                    else scan_elements P n (d - 1) (q # t) []))
          else if take 4 cs = ascii ''null'' then Inr (PyNone, drop 4 cs)
          else if take 4 cs = ascii ''true'' then Inr (PyBool True, drop 4 cs)
          else if take 5 cs = ascii ''false'' then Inr (PyBool False, drop 5 cs)
          else if take 3 cs = ascii ''NaN'' then Inr (PyFloat (ascii ''nan''), drop 3 cs)
          else if take 8 cs = ascii ''Infinity'' then Inr (PyFloat (ascii ''inf''), drop 8 cs)
          else if take 9 cs = ascii ''-Infinity'' then
            Inr (PyFloat (ascii ''-inf''), drop 9 cs)
          else scan_number P cs)"
| "scan_elements P 0 d cs acc = Inl decode_error"
| "scan_elements P (Suc n) d cs acc =
     (case scan_once P n d cs of
        Inl e \<Rightarrow> Inl e
      | Inr (v, t) \<Rightarrow>
          (case skip_ws t of
             [] \<Rightarrow> Inl decode_error
           | q # u \<Rightarrow>
               if q = 93 then Inr (PyList (acc @ [v]), u)
               else if q = 44 then scan_elements P n d (skip_ws u) (acc @ [v])
               else Inl decode_error))"
| "scan_members P 0 d cs acc = Inl decode_error"
| "scan_members P (Suc n) d cs acc =
     (case cs of
        [] \<Rightarrow> Inl decode_error
      | q # r \<Rightarrow>
          if q = 34 then
            (case scan_string r of
               None \<Rightarrow> Inl decode_error
             | Some (k, t) \<Rightarrow>
                 (case skip_ws t of
                    [] \<Rightarrow> Inl decode_error
                  | c # u \<Rightarrow>
                      if c = 58 then
                        (case scan_once P n d (skip_ws u) of
                           Inl e \<Rightarrow> Inl e
                         | Inr (v, w) \<Rightarrow>
                             (case skip_ws w of
                                [] \<Rightarrow> Inl decode_error
                              | p # x \<Rightarrow>
                                  if p = 125 then Inr (PyDict (dict_set acc (PyStr k) v), x)
                                  else if p = 44 then
                                    scan_members P n d (skip_ws x) (dict_set acc (PyStr k) v)
                                  else Inl decode_error))
                      else Inl decode_error))
          else Inl decode_error)"

definition json_loads :: "python \<Rightarrow> pystr \<Rightarrow> exn + pyval" where
  "json_loads P s =
     (case scan_once P (2 * length s + 2) (decoder_depth P) (skip_ws s) of
        Inl e \<Rightarrow> Inl e
      | Inr (v, t) \<Rightarrow> if skip_ws t = [] then Inr v else Inl decode_error)"

subsection \<open>The values that \<^verbatim>\<open>json\<close> gives back as they were\<close>

text \<open>What can follow a value inside a text: nothing, a comma, or a closing bracket.\<close>

definition delimited :: "pystr \<Rightarrow> bool" where
  "delimited r = (case r of [] \<Rightarrow> True | c # u \<Rightarrow> c = 44 \<or> c = 93 \<or> c = 125)"

text \<open>
  The nesting of lists and dictionaries in a value.
\<close>

fun depth :: "pyval \<Rightarrow> nat"
  and depth_list :: "pyval list \<Rightarrow> nat"
  and depth_items :: "(pyval \<times> pyval) list \<Rightarrow> nat"
where
  "depth (PyList xs) = Suc (depth_list xs)"
| "depth (PyDict kvs) = Suc (depth_items kvs)"
| "depth PyNone = 0"
| "depth (PyBool b) = 0"
| "depth (PyInt i) = 0"
| "depth (PyFloat x) = 0"
| "depth (PyStr s) = 0"
| "depth (PyBytes b) = 0"
| "depth (PyTuple xs) = Suc (depth_list xs)"
| "depth_list [] = 0"
| "depth_list (x # xs) = max (depth x) (depth_list xs)"
| "depth_items [] = 0"
| "depth_items (kv # kvs) = max (depth (snd kv)) (depth_items kvs)"

text \<open>
  A string of code points up to U+10FFFF in which no high surrogate is directly followed
  by a low one: \<^verbatim>\<open>json.loads\<close> joins such a pair into one code point.
\<close>

definition is_high :: "nat \<Rightarrow> bool" where
  "is_high c = (0xD800 \<le> c \<and> c \<le> 0xDBFF)"

definition is_low :: "nat \<Rightarrow> bool" where
  "is_low c = (0xDC00 \<le> c \<and> c \<le> 0xDFFF)"

fun plain_str :: "pystr \<Rightarrow> bool" where
  "plain_str [] = True"
| "plain_str [a] = (a < 0x110000)"
| "plain_str (a # b # cs) = (a < 0x110000 \<and> \<not> (is_high a \<and> is_low b) \<and> plain_str (b # cs))"

text \<open>
  A float other than \<^verbatim>\<open>nan\<close> (which is not equal to itself): an infinity, or a float whose
  \<^verbatim>\<open>repr\<close> is a number literal with a fraction or an exponent that \<^verbatim>\<open>float()\<close> reads as the
  same float.
\<close>

definition plain_float :: "python \<Rightarrow> pystr \<Rightarrow> bool" where
  "plain_float P x =
     (x = ascii ''inf'' \<or> x = ascii ''-inf''
      \<or> (match_number x = Some (x, True, []) \<and> float_repr P x = x))"

text \<open>
  The values built from \<^verbatim>\<open>None\<close>, Booleans, integers that the interpreter converts to text,
  such floats and strings, lists, and dictionaries whose keys are such strings.  The keys
  of a dictionary are distinct, as they are in Python.  Bytes are not serialised, and a
  tuple comes back as a list.
\<close>

fun plain :: "python \<Rightarrow> pyval \<Rightarrow> bool"
  and plain_list :: "python \<Rightarrow> pyval list \<Rightarrow> bool"
  and plain_items :: "python \<Rightarrow> (pyval \<times> pyval) list \<Rightarrow> bool"
where
  "plain P PyNone = True"
| "plain P (PyBool b) = True"
| "plain P (PyInt i) = (\<not> exceeds_digits P (length (dec_nat (nat \<bar>i\<bar>))))"
| "plain P (PyFloat x) = plain_float P x"
| "plain P (PyStr s) = plain_str s"
| "plain P (PyBytes b) = False"
| "plain P (PyList xs) = plain_list P xs"
| "plain P (PyTuple xs) = False"
| "plain P (PyDict kvs) = (distinct (map fst kvs) \<and> plain_items P kvs)"
| "plain_list P [] = True"
| "plain_list P (x # xs) = (plain P x \<and> plain_list P xs)"
| "plain_items P [] = True"
| "plain_items P (kv # kvs) =
     ((case fst kv of PyStr k \<Rightarrow> plain_str k | _ \<Rightarrow> False) \<and> plain P (snd kv)
      \<and> plain_items P kvs)"

section \<open>What the client runs on\<close>

text \<open>
  The client delegates to \<^verbatim>\<open>ipfshttpclient\<close> and \<^verbatim>\<open>pathlib\<close>, which are not part of the
  repository.  Their calls are the fields of a record: each takes the state \<open>'w\<close> of the
  world outside the client (the node, the library's sessions, the file system) and
  returns what the call returns or raises, with the world after it.  The record also
  holds the interpreter.  The theorems hold for every such library and interpreter.

  A path is the text of a \<^verbatim>\<open>Path\<close> object; \<open>Str\<close> and \<open>Path\<close> are the two forms of a
  path argument, which differ in truth value when the text is empty.  The two Booleans of
  \<open>path_mkdir\<close> are the arguments \<^verbatim>\<open>parents\<close> and \<^verbatim>\<open>exist_ok\<close> of \<^verbatim>\<open>Path.mkdir\<close>.
\<close>

type_synonym handle = nat

datatype pathlike = Str string | Path string

fun as_path :: "pathlike \<Rightarrow> string" where
  "as_path (Str p) = p"
| "as_path (Path p) = p"

fun truthy :: "pathlike option \<Rightarrow> bool" where
  "truthy None = False"
| "truthy (Some (Str p)) = (p \<noteq> [])"
| "truthy (Some (Path p)) = True"

record 'w library =
  python :: python
  ipfs_connect :: "string \<Rightarrow> 'w \<Rightarrow> (exn + handle) \<times> 'w"
  client_close :: "handle \<Rightarrow> 'w \<Rightarrow> (exn + unit) \<times> 'w"
  client_add :: "handle \<Rightarrow> string \<Rightarrow> bool \<Rightarrow> 'w \<Rightarrow> (exn + pyval) \<times> 'w"
  client_add_bytes :: "handle \<Rightarrow> pyval \<Rightarrow> bool \<Rightarrow> 'w \<Rightarrow> (exn + string) \<times> 'w"
  client_cat :: "handle \<Rightarrow> string \<Rightarrow> 'w \<Rightarrow> (exn + bytes) \<times> 'w"
  pin_add :: "handle \<Rightarrow> string \<Rightarrow> 'w \<Rightarrow> (exn + unit) \<times> 'w"
  pin_rm :: "handle \<Rightarrow> string \<Rightarrow> 'w \<Rightarrow> (exn + unit) \<times> 'w"
  pin_ls :: "handle \<Rightarrow> string \<Rightarrow> 'w \<Rightarrow> (exn + pyval) \<times> 'w"
  stats_bw :: "handle \<Rightarrow> 'w \<Rightarrow> (exn + pyval) \<times> 'w"
  client_id :: "handle \<Rightarrow> 'w \<Rightarrow> (exn + unit) \<times> 'w"
  path_exists :: "string \<Rightarrow> 'w \<Rightarrow> bool"
  path_parent :: "string \<Rightarrow> string"
  path_mkdir :: "string \<Rightarrow> bool \<Rightarrow> bool \<Rightarrow> 'w \<Rightarrow> (exn + unit) \<times> 'w"
  path_write_bytes :: "string \<Rightarrow> bytes \<Rightarrow> 'w \<Rightarrow> (exn + unit) \<times> 'w"

section \<open>The client (\<^verbatim>\<open>client.py\<close>)\<close>

record client =
  host :: string
  port :: int
  protocol :: string
  api_url :: string
  priv_client :: "handle option"

text \<open>The object \<^verbatim>\<open>self\<close> and the world it acts on.\<close>

record 'w state =
  self :: client
  world :: 'w

definition port_str :: "int \<Rightarrow> string" where
  "port_str p = map char_of (int_str p)"

definition init :: "string \<Rightarrow> int \<Rightarrow> string \<Rightarrow> client" where
  "init h p pr =
     \<lparr>host = h, port = p, protocol = pr,
      api_url = pr @ ''://'' @ h @ '':'' @ port_str p @ ''/api/v0'',
      priv_client = None\<rparr>"

text \<open>
  \<^verbatim>\<open>except Exception as e: raise IPFSError(f"<prefix>{e}")\<close> around a result: an exception
  below \<^verbatim>\<open>Exception\<close> becomes an \<^verbatim>\<open>IPFSError\<close>, any other passes.
\<close>

definition reraise :: "exn_class \<Rightarrow> string \<Rightarrow> exn + 'a \<Rightarrow> exn + 'a" where
  "reraise k prefix r =
     (case r of
        Inl e \<Rightarrow> if is_Exception (cls e) then Inl (Exn k (Formatted prefix (str_of e))) else Inl e
      | Inr v \<Rightarrow> Inr v)"

text \<open>
  A method call \<^verbatim>\<open>self._client.m(...)\<close>: on \<^verbatim>\<open>None\<close> the attribute access raises
  \<^verbatim>\<open>AttributeError\<close>; on a handle the library runs.
\<close>

definition on_client ::
  "'w state \<Rightarrow> (handle \<Rightarrow> 'w \<Rightarrow> (exn + 'a) \<times> 'w) \<Rightarrow> (exn + 'a) \<times> 'w state" where
  "on_client s f =
     (case priv_client (self s) of
        None \<Rightarrow> (Inl (Exn AttributeError InterpreterText), s)
      | Some h \<Rightarrow> (case f h (world s) of (r, w) \<Rightarrow> (r, s\<lparr>world := w\<rparr>)))"

text \<open>\<^verbatim>\<open>v[k]\<close> for a string \<open>k\<close>, and \<^verbatim>\<open>v.values()\<close>.\<close>

fun subscript :: "pyval \<Rightarrow> pystr \<Rightarrow> exn + pyval" where
  "subscript (PyDict kvs) k =
     (case map_of kvs (PyStr k) of
        None \<Rightarrow> Inl (Exn KeyError InterpreterText)
      | Some v \<Rightarrow> Inr v)"
| "subscript v k = Inl (Exn TypeError InterpreterText)"

fun dict_values :: "pyval \<Rightarrow> exn + pyval list" where
  "dict_values (PyDict kvs) = Inr (map snd kvs)"
| "dict_values v = Inl (Exn AttributeError InterpreterText)"

definition connect :: "'w library \<Rightarrow> 'w state \<Rightarrow> (exn + unit) \<times> 'w state" where
  "connect L s =
     (case ipfs_connect L
             (''/'' @ protocol (self s) @ ''/'' @ host (self s) @ ''/'' @ port_str (port (self s)))
             (world s) of
        (Inr h, w) \<Rightarrow> (Inr (), \<lparr>self = (self s)\<lparr>priv_client := Some h\<rparr>, world = w\<rparr>)
      | (Inl e, w) \<Rightarrow>
          (reraise IPFSConnectionError ''Failed to connect to IPFS daemon: '' (Inl e),
           s\<lparr>world := w\<rparr>))"

definition close :: "'w library \<Rightarrow> 'w state \<Rightarrow> (exn + unit) \<times> 'w state" where
  "close L s =
     (case priv_client (self s) of
        None \<Rightarrow> (Inr (), s)
      | Some h \<Rightarrow> (case client_close L h (world s) of (r, w) \<Rightarrow> (r, s\<lparr>world := w\<rparr>)))"

definition add_file ::
  "'w library \<Rightarrow> pathlike \<Rightarrow> bool \<Rightarrow> 'w state \<Rightarrow> (exn + pyval) \<times> 'w state" where
  "add_file L file_path pin s =
     (if \<not> path_exists L (as_path file_path) (world s) then
        (reraise IPFSError ''Failed to add file: ''
           (Inl (Exn IPFSError (Formatted ''File not found: '' (Literal (as_path file_path))))),
         s)
      else
        (case on_client s (\<lambda>h. client_add L h (as_path file_path) pin) of
           (Inl e, s') \<Rightarrow> (reraise IPFSError ''Failed to add file: '' (Inl e), s')
         | (Inr result, s') \<Rightarrow>
             (reraise IPFSError ''Failed to add file: '' (subscript result (ascii ''Hash'')), s')))"

text \<open>The bytes that \<^verbatim>\<open>add_data\<close> hands to the library for a payload.\<close>

fun payload :: "python \<Rightarrow> pyval \<Rightarrow> exn + pyval" where
  "payload P (PyDict kvs) =
     (case json_dumps P (PyDict kvs) of
        Inl e \<Rightarrow> Inl e
      | Inr t \<Rightarrow> (case str_encode t of Inl e \<Rightarrow> Inl e | Inr b \<Rightarrow> Inr (PyBytes b)))"
| "payload P (PyStr t) = (case str_encode t of Inl e \<Rightarrow> Inl e | Inr b \<Rightarrow> Inr (PyBytes b))"
| "payload P v = Inr v"

definition add_data ::
  "'w library \<Rightarrow> pyval \<Rightarrow> bool \<Rightarrow> 'w state \<Rightarrow> (exn + string) \<times> 'w state" where
  "add_data L data pin s =
     (case payload (python L) data of
        Inl e \<Rightarrow> (reraise IPFSError ''Failed to add data: '' (Inl e), s)
      | Inr d \<Rightarrow>
          (case on_client s (\<lambda>h. client_add_bytes L h d pin) of
             (r, s') \<Rightarrow> (reraise IPFSError ''Failed to add data: '' r, s')))"

definition get_file ::
  "'w library \<Rightarrow> string \<Rightarrow> pathlike option \<Rightarrow> 'w state \<Rightarrow> (exn + bytes) \<times> 'w state" where
  "get_file L hash output_path s =
     (case on_client s (\<lambda>h. client_cat L h hash) of
        (Inl e, s1) \<Rightarrow> (reraise IPFSError ''Failed to get file: '' (Inl e), s1)
      | (Inr data, s1) \<Rightarrow>
          if truthy output_path then
            (case path_mkdir L (path_parent L (as_path (the output_path))) True True (world s1) of
               (Inl e, w2) \<Rightarrow>
                 (reraise IPFSError ''Failed to get file: '' (Inl e), s1\<lparr>world := w2\<rparr>)
             | (Inr u, w2) \<Rightarrow>
                 (case path_write_bytes L (as_path (the output_path)) data w2 of
                    (Inl e, w3) \<Rightarrow>
                      (reraise IPFSError ''Failed to get file: '' (Inl e), s1\<lparr>world := w3\<rparr>)
                  | (Inr u', w3) \<Rightarrow> (Inr data, s1\<lparr>world := w3\<rparr>)))
          else (Inr data, s1))"

text \<open>
  The inner \<^verbatim>\<open>try\<close> of \<^verbatim>\<open>get_data\<close>: \<^verbatim>\<open>json.loads(data.decode())\<close>, and on a
  \<^verbatim>\<open>JSONDecodeError\<close> or a \<^verbatim>\<open>UnicodeDecodeError\<close> the handler \<^verbatim>\<open>return data.decode()\<close>.
\<close>

definition parse_data :: "python \<Rightarrow> bytes \<Rightarrow> exn + pyval" where
  "parse_data P data =
     (case (case bytes_decode data of Inl e \<Rightarrow> Inl e | Inr t \<Rightarrow> json_loads P t) of
        Inr v \<Rightarrow> Inr v
      | Inl e \<Rightarrow>
          if cls e = JSONDecodeError \<or> cls e = UnicodeDecodeError then
            (case bytes_decode data of Inl e' \<Rightarrow> Inl e' | Inr t \<Rightarrow> Inr (PyStr t))
          else Inl e)"

definition get_data :: "'w library \<Rightarrow> string \<Rightarrow> 'w state \<Rightarrow> (exn + pyval) \<times> 'w state" where
  "get_data L hash s =
     (case on_client s (\<lambda>h. client_cat L h hash) of
        (Inl e, s') \<Rightarrow> (reraise IPFSError ''Failed to get data: '' (Inl e), s')
      | (Inr data, s') \<Rightarrow> (reraise IPFSError ''Failed to get data: '' (parse_data (python L) data), s'))"

definition pin :: "'w library \<Rightarrow> string \<Rightarrow> 'w state \<Rightarrow> (exn + bool) \<times> 'w state" where
  "pin L hash s =
     (case on_client s (\<lambda>h. pin_add L h hash) of
        (Inl e, s') \<Rightarrow> (reraise IPFSError ''Failed to pin content: '' (Inl e), s')
      | (Inr u, s') \<Rightarrow> (Inr True, s'))"

definition unpin :: "'w library \<Rightarrow> string \<Rightarrow> 'w state \<Rightarrow> (exn + bool) \<times> 'w state" where
  "unpin L hash s =
     (case on_client s (\<lambda>h. pin_rm L h hash) of
        (Inl e, s') \<Rightarrow> (reraise IPFSError ''Failed to unpin content: '' (Inl e), s')
      | (Inr u, s') \<Rightarrow> (Inr True, s'))"

text \<open>\<^verbatim>\<open>[pin["Hash"] for pin in values]\<close>: the first failing subscript ends the loop.\<close>

fun hashes :: "pyval list \<Rightarrow> exn + pyval list" where
  "hashes [] = Inr []"
| "hashes (p # ps) =
     (case subscript p (ascii ''Hash'') of
        Inl e \<Rightarrow> Inl e
      | Inr h \<Rightarrow> (case hashes ps of Inl e \<Rightarrow> Inl e | Inr hs \<Rightarrow> Inr (h # hs)))"

definition pin_hashes :: "pyval \<Rightarrow> exn + pyval list" where
  "pin_hashes pins =
     (case subscript pins (ascii ''Keys'') of
        Inl e \<Rightarrow> Inl e
      | Inr keys \<Rightarrow> (case dict_values keys of Inl e \<Rightarrow> Inl e | Inr vs \<Rightarrow> hashes vs))"

definition list_pins :: "'w library \<Rightarrow> 'w state \<Rightarrow> (exn + pyval list) \<times> 'w state" where
  "list_pins L s =
     (case on_client s (\<lambda>h. pin_ls L h ''recursive'') of
        (Inl e, s') \<Rightarrow> (reraise IPFSError ''Failed to list pins: '' (Inl e), s')
      | (Inr pins, s') \<Rightarrow> (reraise IPFSError ''Failed to list pins: '' (pin_hashes pins), s'))"

definition get_stats :: "'w library \<Rightarrow> 'w state \<Rightarrow> (exn + pyval) \<times> 'w state" where
  "get_stats L s =
     (case on_client s (\<lambda>h. stats_bw L h) of
        (r, s') \<Rightarrow> (reraise IPFSError ''Failed to get stats: '' r, s'))"

text \<open>The bare \<^verbatim>\<open>except:\<close> of \<^verbatim>\<open>is_connected\<close> catches every exception.\<close>

definition is_connected :: "'w library \<Rightarrow> 'w state \<Rightarrow> (exn + bool) \<times> 'w state" where
  "is_connected L s =
     (case on_client s (\<lambda>h. client_id L h) of
        (Inl e, s') \<Rightarrow> (Inr False, s')
      | (Inr u, s') \<Rightarrow> (Inr True, s'))"

text \<open>An exception of class \<open>k\<close> is raised.\<close>

definition raises :: "exn_class \<Rightarrow> exn + 'a \<Rightarrow> bool" where
  "raises k r = (case r of Inl e \<Rightarrow> cls e = k | Inr v \<Rightarrow> False)"

section \<open>A node to run the client on\<close>

text \<open>
  One library for the concrete runs below.  Its world is a node with a block store and a
  recursive pin set, the library's open sessions, and a file system of regular files and
  directories.  The node listens on \<^verbatim>\<open>/http/127.0.0.1/5001\<close>.  A stored block is named
  after its content.  The listing of the pins has the shape the node's \<^verbatim>\<open>pin/ls\<close> endpoint
  answers with: under \<^verbatim>\<open>Keys\<close>, each pinned identifier mapped to \<^verbatim>\<open>{"Type": ...}\<close>.
  The requests do not depend on a session, as in \<^verbatim>\<open>ipfshttpclient\<close> without a persistent
  session; with \<open>strict\<close> the library refuses to close a session that is not open.
\<close>

record node =
  blocks :: "(string \<times> bytes) list"
  pinned :: "string list"
  sessions :: "handle list"
  files :: "(string \<times> bytes) list"
  dirs :: "string list"

definition cid_of :: "bytes \<Rightarrow> string" where
  "cid_of b = ''Qm'' @ b"

definition error_response :: "string \<Rightarrow> exn" where
  "error_response m = Exn (OtherException ''ErrorResponse'') (Literal m)"

definition os_error :: "string \<Rightarrow> string \<Rightarrow> exn" where
  "os_error n p = Exn (OtherException n) (Literal p)"

definition store_block :: "bytes \<Rightarrow> bool \<Rightarrow> node \<Rightarrow> node" where
  "store_block b p w =
     w\<lparr>blocks := (cid_of b, b) # blocks w,
       pinned := (if p then List.insert (cid_of b) (pinned w) else pinned w)\<rparr>"

definition pin_listing :: "string \<Rightarrow> string list \<Rightarrow> pyval" where
  "pin_listing t cs =
     PyDict [(PyStr (ascii ''Keys''),
              PyDict (map (\<lambda>c. (PyStr (ascii c), PyDict [(PyStr (ascii ''Type''), PyStr (ascii t))]))
                        cs))]"

text \<open>The parent of a path, and the path with the directories above it.\<close>

definition posix_parent :: "string \<Rightarrow> string" where
  "posix_parent p =
     (case rev (dropWhile (\<lambda>c. c \<noteq> CHR ''/'') (rev p)) of
        [] \<Rightarrow> ''.''
      | c # cs \<Rightarrow> if cs = [] then ''/'' else butlast (c # cs))"

definition ancestors :: "string \<Rightarrow> string list" where
  "ancestors p =
     filter (\<lambda>q. q \<noteq> [])
       (map (\<lambda>i. take i p) (filter (\<lambda>i. p ! i = CHR ''/'') [0..<length p])) @ [p]"

definition is_file :: "node \<Rightarrow> string \<Rightarrow> bool" where
  "is_file w p = (map_of (files w) p \<noteq> None)"

text \<open>
  The interpreter of the runs: the default limit on the digits of an integer, room for a
  thousand nested lists and dictionaries, and floats that print as they were written.
\<close>

definition node_python :: python where
  "node_python =
     \<lparr>int_max_str_digits = 4300, encoder_depth = 1000, decoder_depth = 1000,
      float_repr = (\<lambda>l. l)\<rparr>"

definition node_library :: "bool \<Rightarrow> node library" where
  "node_library strict =
     \<lparr>python = node_python,
      ipfs_connect = (\<lambda>addr w.
        if addr = ''/http/127.0.0.1/5001'' then
          (Inr (Suc (length (sessions w))), w\<lparr>sessions := Suc (length (sessions w)) # sessions w\<rparr>)
        else (Inl (Exn (OtherException ''ConnectionError'') (Literal addr)), w)),
      client_close = (\<lambda>h w.
        if strict \<and> h \<notin> set (sessions w) then
          (Inl (Exn (OtherException ''SessionClosed'') (Literal ''session is not open'')), w)
        else (Inr (), w\<lparr>sessions := removeAll h (sessions w)\<rparr>)),
      client_add = (\<lambda>h p pn w.
        case map_of (files w) p of
          None \<Rightarrow> (Inl (os_error ''FileNotFoundError'' p), w)
        | Some b \<Rightarrow>
            (Inr (PyDict [(PyStr (ascii ''Name''), PyStr (ascii p)),
                          (PyStr (ascii ''Hash''), PyStr (ascii (cid_of b))),
                          (PyStr (ascii ''Size''), PyStr (int_str (int (length b))))]),
             store_block b pn w)),
      client_add_bytes = (\<lambda>h d pn w.
        case d of
          PyBytes b \<Rightarrow> (Inr (cid_of b), store_block b pn w)
        | _ \<Rightarrow> (Inl (Exn TypeError InterpreterText), w)),
      client_cat = (\<lambda>h c w.
        case map_of (blocks w) c of
          None \<Rightarrow> (Inl (error_response ''no link named''), w)
        | Some b \<Rightarrow> (Inr b, w)),
      pin_add = (\<lambda>h c w.
        if map_of (blocks w) c = None then (Inl (error_response ''not found''), w)
        else (Inr (), w\<lparr>pinned := List.insert c (pinned w)\<rparr>)),
      pin_rm = (\<lambda>h c w.
        if c \<in> set (pinned w) then (Inr (), w\<lparr>pinned := removeAll c (pinned w)\<rparr>)
        else (Inl (error_response ''not pinned''), w)),
      pin_ls = (\<lambda>h t w. (Inr (pin_listing t (pinned w)), w)),
      stats_bw = (\<lambda>h w.
        (Inr (PyDict [(PyStr (ascii ''TotalIn''), PyInt 0), (PyStr (ascii ''TotalOut''), PyInt 0)]),
         w)),
      client_id = (\<lambda>h w. (Inr (), w)),
      path_exists = (\<lambda>p w. is_file w p \<or> p \<in> set (dirs w)),
      path_parent = posix_parent,
      path_mkdir = (\<lambda>p parents exist_ok w.
        if p \<in> set (dirs w) then
          (if exist_ok then (Inr (), w) else (Inl (os_error ''FileExistsError'' p), w))
        else if is_file w p then (Inl (os_error ''FileExistsError'' p), w)
        else if list_ex (is_file w) (ancestors p) then
          (Inl (os_error ''NotADirectoryError'' p), w)
        else if \<not> parents \<and> posix_parent p \<notin> set (dirs w) then
          (Inl (os_error ''FileNotFoundError'' p), w)
        else (Inr (), w\<lparr>dirs := dirs w @ filter (\<lambda>q. q \<notin> set (dirs w)) (ancestors p)\<rparr>)),
      path_write_bytes = (\<lambda>p b w.
        if p \<in> set (dirs w) then (Inl (os_error ''IsADirectoryError'' p), w)
        else if posix_parent p \<notin> set (dirs w) then (Inl (os_error ''FileNotFoundError'' p), w)
        else (Inr (), w\<lparr>files := (p, b) # filter (\<lambda>f. fst f \<noteq> p) (files w)\<rparr>))\<rparr>"

text \<open>
  An empty node, and a client constructed with the default arguments on it, before any
  call to \<^verbatim>\<open>connect\<close>.
\<close>

definition empty_node :: node where
  "empty_node = \<lparr>blocks = [], pinned = [], sessions = [], files = [], dirs = [''/'', ''.'']\<rparr>"

definition fresh :: "node \<Rightarrow> node state" where
  "fresh w = \<lparr>self = init ''127.0.0.1'' 5001 ''http'', world = w\<rparr>"

text \<open>
  The client after a successful \<^verbatim>\<open>connect\<close> on the node \<open>w\<close>; a client configured for a host
  where no node listens; and the library with a \<^verbatim>\<open>close\<close> that fails, as a transport may
  when it releases a connection.
\<close>

definition connected :: "bool \<Rightarrow> node \<Rightarrow> node state" where
  "connected strict w = snd (connect (node_library strict) (fresh w))"

definition unreachable :: "node state" where
  "unreachable = \<lparr>self = init ''10.0.0.9'' 5001 ''http'', world = empty_node\<rparr>"

definition failing_close :: "node library" where
  "failing_close =
     (node_library False)\<lparr>client_close :=
        (\<lambda>h w. (Inl (Exn (OtherException ''OSError'') (Literal ''connection reset'')), w))\<rparr>"

text \<open>
  A result that, when it is an exception below \<^verbatim>\<open>Exception\<close>, is one of class \<open>k\<close>.
\<close>

definition fails_only_with :: "exn_class \<Rightarrow> exn + 'a \<Rightarrow> bool" where
  "fails_only_with k r =
     (case r of Inr v \<Rightarrow> True | Inl e \<Rightarrow> if is_Exception (cls e) then cls e = k else True)"

section \<open>Basic facts\<close>

subsection \<open>Running the definitions on concrete inputs\<close>

lemmas scan_once_numeral =
  scan_once.simps(2)[of _ "pred_numeral k" for k, folded numeral_eq_Suc]

lemmas scan_elements_numeral =
  scan_elements.simps(2)[of _ "pred_numeral k" for k, folded numeral_eq_Suc]

lemmas scan_members_numeral =
  scan_members.simps(2)[of _ "pred_numeral k" for k, folded numeral_eq_Suc]

lemma eq_char_of_iff: "c = char_of n \<longleftrightarrow> take_bit 8 n = (of_char c :: nat)"
  using char_of_eq_iff[of n c] by (simp only: eq_commute[of c])

lemmas json_eval = json_loads_def json_dumps_def ascii_def skip_ws_def is_ws_def
  scan_number_def match_number_def int_part_def frac_part_def exp_part_def int_of_literal_def
  is_digit_def scan_once_numeral scan_elements_numeral scan_members_numeral
  encode_str_def escape_point_def int_str_def int_repr_def exceeds_digits_def float_str_def
  dec_nat.simps decode_error_def value_error_def recursion_error_def

lemmas codec_eval = bytes_decode_def utf8_lead_def is_cont_def str_encode_def utf8_unit_def
  char_of_eq_iff eq_char_of_iff

lemmas client_eval = connect_def close_def add_file_def add_data_def get_file_def get_data_def
  parse_data_def pin_def unpin_def list_pins_def pin_hashes_def get_stats_def is_connected_def
  on_client_def reraise_def raises_def

lemmas node_eval = node_library_def node_python_def store_block_def cid_of_def pin_listing_def empty_node_def
  error_response_def os_error_def posix_parent_def ancestors_def is_file_def

lemma port_str_5001: "port_str 5001 = ''5001''"
  by (simp add: port_str_def int_str_def dec_nat.simps char_of_eq_iff)

lemma fresh_eq:
  "fresh w =
     \<lparr>self = \<lparr>host = ''127.0.0.1'', port = 5001, protocol = ''http'',
        api_url = ''http://127.0.0.1:5001/api/v0'', priv_client = None\<rparr>,
      world = w\<rparr>"
  by (simp add: fresh_def init_def port_str_5001)

lemma connected_eq:
  "connected strict w =
     \<lparr>self = \<lparr>host = ''127.0.0.1'', port = 5001, protocol = ''http'',
        api_url = ''http://127.0.0.1:5001/api/v0'',
        priv_client = Some (Suc (length (sessions w)))\<rparr>,
      world = w\<lparr>sessions := Suc (length (sessions w)) # sessions w\<rparr>\<rparr>"
  by (simp add: connected_def connect_def fresh_eq port_str_5001 node_library_def)

lemma unreachable_eq:
  "unreachable =
     \<lparr>self = \<lparr>host = ''10.0.0.9'', port = 5001, protocol = ''http'',
        api_url = ''http://10.0.0.9:5001/api/v0'', priv_client = None\<rparr>,
      world = empty_node\<rparr>"
  by (simp add: unreachable_def init_def port_str_5001)

subsection \<open>Exceptions at the boundary\<close>

lemma reraise_Inr [simp]: "reraise k p (Inr v) = Inr v"
  by (simp add: reraise_def)

lemma raises_reraise:
  "raises k' (reraise k p r) =
     (case r of Inr v \<Rightarrow> False | Inl e \<Rightarrow> if is_Exception (cls e) then k = k' else cls e = k')"
  by (simp add: raises_def reraise_def split: sum.splits)

lemma fails_only_with_Inr [simp]: "fails_only_with k (Inr v)"
  by (simp add: fails_only_with_def)

lemma fails_only_with_reraise [simp]: "fails_only_with k (reraise k p r)"
  by (simp add: fails_only_with_def reraise_def split: sum.splits)

lemma on_client_self [simp]: "self (snd (on_client s f)) = self s"
  by (simp add: on_client_def split: option.splits prod.splits)

lemma on_client_None:
  "priv_client (self s) = None \<Longrightarrow> on_client s f = (Inl (Exn AttributeError InterpreterText), s)"
  by (simp add: on_client_def)

lemma on_client_Some:
  "priv_client (self s) = Some h \<Longrightarrow>
   on_client s f = (fst (f h (world s)), s\<lparr>world := snd (f h (world s))\<rparr>)"
  by (simp add: on_client_def split: prod.splits)

lemma close_self [simp]: "self (snd (close L s)) = self s"
  by (simp add: close_def split: option.splits prod.splits)

lemma key_str_error: "key_str P k = Inl e \<Longrightarrow> is_Exception (cls e)"
  by (cases k) (auto simp: int_repr_def value_error_def split: if_splits)

lemma dumps_error:
  "dumps P n v = Inl e \<Longrightarrow> is_Exception (cls e)"
  "dumps_list P n vs = Inl e \<Longrightarrow> is_Exception (cls e)"
  "dumps_items P n kvs = Inl e \<Longrightarrow> is_Exception (cls e)"
  by (induction P n v and P n vs and P n kvs rule: dumps_dumps_list_dumps_items.induct)
     (auto simp: int_repr_def value_error_def recursion_error_def
        split: sum.splits if_splits dest: key_str_error)

lemma payload_raises: "payload P d = Inl e \<Longrightarrow> is_Exception (cls e)"
  by (cases d)
     (auto simp: str_encode_def json_dumps_def recursion_error_def
        split: sum.splits option.splits if_splits dest: dumps_error)

text \<open>Every data operation on a client without a handle raises \<^verbatim>\<open>IPFSError\<close>.\<close>

lemma add_file_unconnected:
  "priv_client (self s) = None \<Longrightarrow>
   raises IPFSError (fst (add_file L fp pn s)) \<and> snd (add_file L fp pn s) = s"
  by (simp add: add_file_def on_client_None raises_reraise)

lemma add_data_unconnected:
  "priv_client (self s) = None \<Longrightarrow>
   raises IPFSError (fst (add_data L d pn s)) \<and> snd (add_data L d pn s) = s"
  by (auto simp: add_data_def on_client_None raises_reraise split: sum.splits
      dest: payload_raises)

lemma get_file_unconnected:
  "priv_client (self s) = None \<Longrightarrow>
   raises IPFSError (fst (get_file L c op s)) \<and> snd (get_file L c op s) = s"
  by (simp add: get_file_def on_client_None raises_reraise)

lemma get_data_unconnected:
  "priv_client (self s) = None \<Longrightarrow>
   raises IPFSError (fst (get_data L c s)) \<and> snd (get_data L c s) = s"
  by (simp add: get_data_def on_client_None raises_reraise)

lemma pin_unconnected:
  "priv_client (self s) = None \<Longrightarrow> raises IPFSError (fst (pin L c s)) \<and> snd (pin L c s) = s"
  by (simp add: pin_def on_client_None raises_reraise)

lemma unpin_unconnected:
  "priv_client (self s) = None \<Longrightarrow>
   raises IPFSError (fst (unpin L c s)) \<and> snd (unpin L c s) = s"
  by (simp add: unpin_def on_client_None raises_reraise)

lemma list_pins_unconnected:
  "priv_client (self s) = None \<Longrightarrow>
   raises IPFSError (fst (list_pins L s)) \<and> snd (list_pins L s) = s"
  by (simp add: list_pins_def on_client_None raises_reraise)

lemma get_stats_unconnected:
  "priv_client (self s) = None \<Longrightarrow>
   raises IPFSError (fst (get_stats L s)) \<and> snd (get_stats L s) = s"
  by (simp add: get_stats_def on_client_None raises_reraise)

text \<open>In every state, a data operation fails with \<^verbatim>\<open>IPFSError\<close> or not at all.\<close>

lemma add_file_fails: "fails_only_with IPFSError (fst (add_file L fp pn s))"
  by (simp add: add_file_def split: prod.splits sum.splits)

lemma add_data_fails: "fails_only_with IPFSError (fst (add_data L d pn s))"
  by (simp add: add_data_def split: prod.splits sum.splits)

lemma get_file_fails: "fails_only_with IPFSError (fst (get_file L c op s))"
  by (simp add: get_file_def split: prod.splits sum.splits)

lemma get_data_fails: "fails_only_with IPFSError (fst (get_data L c s))"
  by (simp add: get_data_def split: prod.splits sum.splits)

lemma pin_fails: "fails_only_with IPFSError (fst (pin L c s))"
  by (simp add: pin_def split: prod.splits sum.splits)

lemma unpin_fails: "fails_only_with IPFSError (fst (unpin L c s))"
  by (simp add: unpin_def split: prod.splits sum.splits)

lemma list_pins_fails: "fails_only_with IPFSError (fst (list_pins L s))"
  by (simp add: list_pins_def split: prod.splits sum.splits)

lemma get_stats_fails: "fails_only_with IPFSError (fst (get_stats L s))"
  by (simp add: get_stats_def split: prod.splits sum.splits)

text \<open>No operation assigns to a field of \<^verbatim>\<open>self\<close>, except a successful \<^verbatim>\<open>connect\<close>.\<close>

lemma add_file_self: "self (snd (add_file L fp pn s)) = self s"
proof (cases "on_client s (\<lambda>h. client_add L h (as_path fp) pn)")
  case (Pair r s1)
  then have "self s1 = self s"
    using on_client_self[of s "\<lambda>h. client_add L h (as_path fp) pn"] by simp
  with Pair show ?thesis
    by (simp add: add_file_def split: sum.splits)
qed

lemma add_data_self: "self (snd (add_data L d pn s)) = self s"
proof (cases "payload (python L) d")
  case (Inl e)
  then show ?thesis by (simp add: add_data_def)
next
  case (Inr b)
  show ?thesis
  proof (cases "on_client s (\<lambda>h. client_add_bytes L h b pn)")
    case (Pair r s1)
    then have "self s1 = self s"
      using on_client_self[of s "\<lambda>h. client_add_bytes L h b pn"] by simp
    with Pair Inr show ?thesis
      by (simp add: add_data_def)
  qed
qed

lemma get_file_self: "self (snd (get_file L c op s)) = self s"
proof (cases "on_client s (\<lambda>h. client_cat L h c)")
  case (Pair r s1)
  then have "self s1 = self s"
    using on_client_self[of s "\<lambda>h. client_cat L h c"] by simp
  with Pair show ?thesis
    by (simp add: get_file_def split: prod.splits sum.splits)
qed

lemma get_data_self: "self (snd (get_data L c s)) = self s"
proof (cases "on_client s (\<lambda>h. client_cat L h c)")
  case (Pair r s1)
  then have "self s1 = self s"
    using on_client_self[of s "\<lambda>h. client_cat L h c"] by simp
  with Pair show ?thesis
    by (simp add: get_data_def split: sum.splits)
qed

lemma pin_self: "self (snd (pin L c s)) = self s"
proof (cases "on_client s (\<lambda>h. pin_add L h c)")
  case (Pair r s1)
  then have "self s1 = self s"
    using on_client_self[of s "\<lambda>h. pin_add L h c"] by simp
  with Pair show ?thesis
    by (simp add: pin_def split: sum.splits)
qed

lemma unpin_self: "self (snd (unpin L c s)) = self s"
proof (cases "on_client s (\<lambda>h. pin_rm L h c)")
  case (Pair r s1)
  then have "self s1 = self s"
    using on_client_self[of s "\<lambda>h. pin_rm L h c"] by simp
  with Pair show ?thesis
    by (simp add: unpin_def split: sum.splits)
qed

lemma list_pins_self: "self (snd (list_pins L s)) = self s"
proof (cases "on_client s (\<lambda>h. pin_ls L h ''recursive'')")
  case (Pair r s1)
  then have "self s1 = self s"
    using on_client_self[of s "\<lambda>h. pin_ls L h ''recursive''"] by simp
  with Pair show ?thesis
    by (simp add: list_pins_def split: sum.splits)
qed

lemma get_stats_self: "self (snd (get_stats L s)) = self s"
proof (cases "on_client s (\<lambda>h. stats_bw L h)")
  case (Pair r s1)
  then have "self s1 = self s"
    using on_client_self[of s "\<lambda>h. stats_bw L h"] by simp
  with Pair show ?thesis
    by (simp add: get_stats_def)
qed

lemma is_connected_self: "self (snd (is_connected L s)) = self s"
proof (cases "on_client s (\<lambda>h. client_id L h)")
  case (Pair r s1)
  then have "self s1 = self s"
    using on_client_self[of s "\<lambda>h. client_id L h"] by simp
  with Pair show ?thesis
    by (simp add: is_connected_def split: sum.splits)
qed

lemma connect_failed_self: "fst (connect L s) = Inl e \<Longrightarrow> self (snd (connect L s)) = self s"
  by (simp add: connect_def split: prod.splits sum.splits)

lemma connect_configuration:
  "host (self (snd (connect L s))) = host (self s)
   \<and> port (self (snd (connect L s))) = port (self s)
   \<and> protocol (self (snd (connect L s))) = protocol (self s)
   \<and> api_url (self (snd (connect L s))) = api_url (self s)"
  by (simp add: connect_def split: prod.splits sum.splits)

section \<open>Reading data: \<^verbatim>\<open>get_data\<close>\<close>

lemma parse_data_undecodable:
  "bytes_decode data = Inl e \<Longrightarrow>
   parse_data P data = Inl (Exn UnicodeDecodeError InterpreterText)"
  by (auto simp: parse_data_def bytes_decode_def split: option.splits)

lemma get_data_undecodable:
  assumes "priv_client (self s) = Some h"
    and "client_cat L h c (world s) = (Inr data, w)"
    and "bytes_decode data = Inl e"
  shows "get_data L c s =
           (Inl (Exn IPFSError (Formatted ''Failed to get data: '' InterpreterText)), s\<lparr>world := w\<rparr>)"
  using assms
  by (simp add: get_data_def on_client_Some parse_data_undecodable[of data e] reraise_def)

text \<open>
  C1.  The claim is that fetched bytes that are neither JSON nor UTF-8 text come back
  unchanged and that \<^verbatim>\<open>get_data\<close> never fails because of them.  On the node holding the
  single byte \<^verbatim>\<open>0xFF\<close>, which is not UTF-8, the code does otherwise: the fetch succeeds,
  \<^verbatim>\<open>data.decode()\<close> raises \<^verbatim>\<open>UnicodeDecodeError\<close>, the handler that catches it calls
  \<^verbatim>\<open>data.decode()\<close> again, and the second error leaves as an \<^verbatim>\<open>IPFSError\<close>.
\<close>

theorem get_data_undecodable_raises:
  "fst (get_data (node_library False) (cid_of [CHR 0xFF])
         (connected False (store_block [CHR 0xFF] False empty_node)))
     = Inl (Exn IPFSError (Formatted ''Failed to get data: '' InterpreterText))"
  by (simp add: connected_eq client_eval node_eval codec_eval)

section \<open>The error boundary\<close>

lemma close_is_library_close:
  "priv_client (self s) = Some h \<Longrightarrow> fst (close L s) = fst (client_close L h (world s))"
  by (simp add: close_def split: prod.splits)

text \<open>
  C2.  The claim is that no exception of the library crosses the boundary of any public
  operation.  \<^verbatim>\<open>close\<close> has no \<^verbatim>\<open>try\<close>: on a connected client whose library handle fails
  to close with an \<^verbatim>\<open>OSError\<close>, \<^verbatim>\<open>close\<close> raises that \<^verbatim>\<open>OSError\<close>, which is none of the three
  client error kinds.
\<close>

theorem close_propagates_library_exception:
  "fst (close failing_close (snd (connect failing_close (fresh empty_node))))
     = Inl (Exn (OtherException ''OSError'') (Literal ''connection reset''))
   \<and> \<not> is_client_error (OtherException ''OSError'')"
  by (simp add: fresh_eq failing_close_def port_str_5001 client_eval node_eval)

section \<open>The states of the client\<close>

text \<open>
  C3, as amended.  On a client that never connected (\<^verbatim>\<open>_client\<close> is \<^verbatim>\<open>None\<close>), each of the eight
  data operations raises the generic \<^verbatim>\<open>IPFSError\<close> and leaves the client and the world as
  they were: it neither connects nor raises \<^verbatim>\<open>IPFSConnectionError\<close>.
\<close>

theorem unconnected_data_operation_raises_IPFSError:
  assumes "priv_client (self s) = None"
  shows "(raises IPFSError (fst (add_file L fp pn s)) \<and> snd (add_file L fp pn s) = s)
       \<and> (raises IPFSError (fst (add_data L d pn s)) \<and> snd (add_data L d pn s) = s)
       \<and> (raises IPFSError (fst (get_file L c op s)) \<and> snd (get_file L c op s) = s)
       \<and> (raises IPFSError (fst (get_data L c s)) \<and> snd (get_data L c s) = s)
       \<and> (raises IPFSError (fst (pin L c s)) \<and> snd (pin L c s) = s)
       \<and> (raises IPFSError (fst (unpin L c s)) \<and> snd (unpin L c s) = s)
       \<and> (raises IPFSError (fst (list_pins L s)) \<and> snd (list_pins L s) = s)
       \<and> (raises IPFSError (fst (get_stats L s)) \<and> snd (get_stats L s) = s)"
  using add_file_unconnected[OF assms] add_data_unconnected[OF assms]
    get_file_unconnected[OF assms] get_data_unconnected[OF assms] pin_unconnected[OF assms]
    unpin_unconnected[OF assms] list_pins_unconnected[OF assms] get_stats_unconnected[OF assms]
  by blast

text \<open>
  C3, witness: the client constructed with the default arguments, before any
  \<^verbatim>\<open>connect\<close>.
\<close>

theorem unconnected_data_operation_witness:
  "priv_client (self (fresh empty_node)) = None
   \<and> raises IPFSError
        (fst (add_data (node_library False) (PyDict [(PyStr (ascii ''a''), PyInt 1)]) True
           (fresh empty_node)))
   \<and> raises IPFSError (fst (get_data (node_library False) ''QmA'' (fresh empty_node)))
   \<and> snd (pin (node_library False) ''QmA'' (fresh empty_node)) = fresh empty_node"
proof -
  have h: "priv_client (self (fresh empty_node)) = None"
    by (simp add: fresh_eq)
  from unconnected_data_operation_raises_IPFSError[OF h,
      where L = "node_library False" and c = "''QmA''"
        and d = "PyDict [(PyStr (ascii ''a''), PyInt 1)]" and pn = True]
  show ?thesis using h by blast
qed

text \<open>
  C3, counterexample to the claim as stated (every data operation on an unconnected client
  connects or raises \<^verbatim>\<open>IPFSConnectionError\<close>): \<^verbatim>\<open>add_data({"a": 1})\<close> on the fresh client raises
  \<^verbatim>\<open>IPFSError\<close>, the client is still without a handle, and the error is not an
  \<^verbatim>\<open>IPFSConnectionError\<close>.
\<close>

theorem unconnected_add_data_counterexample:
  "fst (add_data (node_library False) (PyDict [(PyStr (ascii ''a''), PyInt 1)]) True
          (fresh empty_node))
     = Inl (Exn IPFSError (Formatted ''Failed to add data: '' InterpreterText))
   \<and> priv_client (self (snd (add_data (node_library False)
          (PyDict [(PyStr (ascii ''a''), PyInt 1)]) True (fresh empty_node)))) = None
   \<and> \<not> raises IPFSConnectionError
        (fst (add_data (node_library False) (PyDict [(PyStr (ascii ''a''), PyInt 1)]) True
           (fresh empty_node)))"
  by (simp add: fresh_eq client_eval json_eval codec_eval)

text \<open>On a client holding a handle, each data operation is the library's call on it.\<close>

lemma add_file_on_handle:
  "priv_client (self t) = Some h \<Longrightarrow>
   add_file L fp pn t =
     (if \<not> path_exists L (as_path fp) (world t) then
        (Inl (Exn IPFSError (Formatted ''Failed to add file: ''
                (Formatted ''File not found: '' (Literal (as_path fp))))), t)
      else
        (case client_add L h (as_path fp) pn (world t) of
           (Inl e, w) \<Rightarrow> (reraise IPFSError ''Failed to add file: '' (Inl e), t\<lparr>world := w\<rparr>)
         | (Inr result, w) \<Rightarrow>
             (reraise IPFSError ''Failed to add file: '' (subscript result (ascii ''Hash'')),
              t\<lparr>world := w\<rparr>)))"
  by (simp add: add_file_def on_client_def reraise_def split: prod.splits sum.splits)

lemma add_data_on_handle:
  "priv_client (self t) = Some h \<Longrightarrow>
   add_data L d pn t =
     (case payload (python L) d of
        Inl e \<Rightarrow> (reraise IPFSError ''Failed to add data: '' (Inl e), t)
      | Inr b \<Rightarrow>
          (case client_add_bytes L h b pn (world t) of
             (r, w) \<Rightarrow> (reraise IPFSError ''Failed to add data: '' r, t\<lparr>world := w\<rparr>)))"
  by (simp add: add_data_def on_client_def split: prod.splits sum.splits)

lemma get_file_on_handle:
  "priv_client (self t) = Some h \<Longrightarrow>
   get_file L c op t =
     (case client_cat L h c (world t) of
        (Inl e, w1) \<Rightarrow> (reraise IPFSError ''Failed to get file: '' (Inl e), t\<lparr>world := w1\<rparr>)
      | (Inr data, w1) \<Rightarrow>
          if truthy op then
            (case path_mkdir L (path_parent L (as_path (the op))) True True w1 of
               (Inl e, w2) \<Rightarrow>
                 (reraise IPFSError ''Failed to get file: '' (Inl e), t\<lparr>world := w2\<rparr>)
             | (Inr u, w2) \<Rightarrow>
                 (case path_write_bytes L (as_path (the op)) data w2 of
                    (Inl e, w3) \<Rightarrow>
                      (reraise IPFSError ''Failed to get file: '' (Inl e), t\<lparr>world := w3\<rparr>)
                  | (Inr u', w3) \<Rightarrow> (Inr data, t\<lparr>world := w3\<rparr>)))
          else (Inr data, t\<lparr>world := w1\<rparr>))"
  by (simp add: get_file_def on_client_def split: prod.splits sum.splits)

lemma get_data_on_handle:
  "priv_client (self t) = Some h \<Longrightarrow>
   get_data L c t =
     (case client_cat L h c (world t) of
        (Inl e, w) \<Rightarrow> (reraise IPFSError ''Failed to get data: '' (Inl e), t\<lparr>world := w\<rparr>)
      | (Inr data, w) \<Rightarrow>
          (reraise IPFSError ''Failed to get data: '' (parse_data (python L) data), t\<lparr>world := w\<rparr>))"
  by (simp add: get_data_def on_client_def split: prod.splits sum.splits)

lemma pin_on_handle:
  "priv_client (self t) = Some h \<Longrightarrow>
   pin L c t =
     (case pin_add L h c (world t) of
        (Inl e, w) \<Rightarrow> (reraise IPFSError ''Failed to pin content: '' (Inl e), t\<lparr>world := w\<rparr>)
      | (Inr u, w) \<Rightarrow> (Inr True, t\<lparr>world := w\<rparr>))"
  by (simp add: pin_def on_client_def split: prod.splits sum.splits)

lemma unpin_on_handle:
  "priv_client (self t) = Some h \<Longrightarrow>
   unpin L c t =
     (case pin_rm L h c (world t) of
        (Inl e, w) \<Rightarrow> (reraise IPFSError ''Failed to unpin content: '' (Inl e), t\<lparr>world := w\<rparr>)
      | (Inr u, w) \<Rightarrow> (Inr True, t\<lparr>world := w\<rparr>))"
  by (simp add: unpin_def on_client_def split: prod.splits sum.splits)

lemma list_pins_on_handle:
  "priv_client (self t) = Some h \<Longrightarrow>
   list_pins L t =
     (case pin_ls L h ''recursive'' (world t) of
        (Inl e, w) \<Rightarrow> (reraise IPFSError ''Failed to list pins: '' (Inl e), t\<lparr>world := w\<rparr>)
      | (Inr pins, w) \<Rightarrow>
          (reraise IPFSError ''Failed to list pins: '' (pin_hashes pins), t\<lparr>world := w\<rparr>))"
  by (simp add: list_pins_def on_client_def split: prod.splits sum.splits)

lemma get_stats_on_handle:
  "priv_client (self t) = Some h \<Longrightarrow>
   get_stats L t =
     (case stats_bw L h (world t) of
        (r, w) \<Rightarrow> (reraise IPFSError ''Failed to get stats: '' r, t\<lparr>world := w\<rparr>))"
  by (simp add: get_stats_def on_client_def split: prod.splits sum.splits)

lemma close_on_handle:
  "priv_client (self s) = Some h \<Longrightarrow>
   close L s = (fst (client_close L h (world s)), s\<lparr>world := snd (client_close L h (world s))\<rparr>)"
  by (simp add: close_def split: prod.splits)

text \<open>
  C4, as amended.  \<^verbatim>\<open>close\<close> keeps \<^verbatim>\<open>_client\<close> and every other field.  On the client \<open>t\<close> that
  \<^verbatim>\<open>close\<close> leaves behind, where \<open>h\<close> is the handle it held, each data operation makes the
  same library call on \<open>h\<close> as before the \<^verbatim>\<open>close\<close>, in the world the library's \<^verbatim>\<open>close\<close>
  left: it returns what the code builds from the library's result, and when the library
  raises an exception below \<^verbatim>\<open>Exception\<close> it raises the generic \<^verbatim>\<open>IPFSError\<close>, never an
  \<^verbatim>\<open>IPFSConnectionError\<close> of its own.
\<close>

theorem data_operation_after_close:
  assumes "priv_client (self s) = Some h" and "t = snd (close L s)"
  shows "(self t = self s \<and> world t = snd (client_close L h (world s)))
   \<and> add_file L fp pn t =
       (if \<not> path_exists L (as_path fp) (world t) then
          (Inl (Exn IPFSError (Formatted ''Failed to add file: ''
                  (Formatted ''File not found: '' (Literal (as_path fp))))), t)
        else
          (case client_add L h (as_path fp) pn (world t) of
             (Inl e, w) \<Rightarrow> (reraise IPFSError ''Failed to add file: '' (Inl e), t\<lparr>world := w\<rparr>)
           | (Inr result, w) \<Rightarrow>
               (reraise IPFSError ''Failed to add file: '' (subscript result (ascii ''Hash'')),
                t\<lparr>world := w\<rparr>)))
   \<and> add_data L d pn t =
       (case payload (python L) d of
          Inl e \<Rightarrow> (reraise IPFSError ''Failed to add data: '' (Inl e), t)
        | Inr b \<Rightarrow>
            (case client_add_bytes L h b pn (world t) of
               (r, w) \<Rightarrow> (reraise IPFSError ''Failed to add data: '' r, t\<lparr>world := w\<rparr>)))
   \<and> get_file L c op t =
       (case client_cat L h c (world t) of
          (Inl e, w1) \<Rightarrow> (reraise IPFSError ''Failed to get file: '' (Inl e), t\<lparr>world := w1\<rparr>)
        | (Inr data, w1) \<Rightarrow>
            if truthy op then
              (case path_mkdir L (path_parent L (as_path (the op))) True True w1 of
                 (Inl e, w2) \<Rightarrow>
                   (reraise IPFSError ''Failed to get file: '' (Inl e), t\<lparr>world := w2\<rparr>)
               | (Inr u, w2) \<Rightarrow>
                   (case path_write_bytes L (as_path (the op)) data w2 of
                      (Inl e, w3) \<Rightarrow>
                        (reraise IPFSError ''Failed to get file: '' (Inl e), t\<lparr>world := w3\<rparr>)
                    | (Inr u', w3) \<Rightarrow> (Inr data, t\<lparr>world := w3\<rparr>)))
            else (Inr data, t\<lparr>world := w1\<rparr>))
   \<and> get_data L c t =
       (case client_cat L h c (world t) of
          (Inl e, w) \<Rightarrow> (reraise IPFSError ''Failed to get data: '' (Inl e), t\<lparr>world := w\<rparr>)
        | (Inr data, w) \<Rightarrow>
            (reraise IPFSError ''Failed to get data: '' (parse_data (python L) data), t\<lparr>world := w\<rparr>))
   \<and> pin L c t =
       (case pin_add L h c (world t) of
          (Inl e, w) \<Rightarrow> (reraise IPFSError ''Failed to pin content: '' (Inl e), t\<lparr>world := w\<rparr>)
        | (Inr u, w) \<Rightarrow> (Inr True, t\<lparr>world := w\<rparr>))
   \<and> unpin L c t =
       (case pin_rm L h c (world t) of
          (Inl e, w) \<Rightarrow>
            (reraise IPFSError ''Failed to unpin content: '' (Inl e), t\<lparr>world := w\<rparr>)
        | (Inr u, w) \<Rightarrow> (Inr True, t\<lparr>world := w\<rparr>))
   \<and> list_pins L t =
       (case pin_ls L h ''recursive'' (world t) of
          (Inl e, w) \<Rightarrow> (reraise IPFSError ''Failed to list pins: '' (Inl e), t\<lparr>world := w\<rparr>)
        | (Inr pins, w) \<Rightarrow>
            (reraise IPFSError ''Failed to list pins: '' (pin_hashes pins), t\<lparr>world := w\<rparr>))
   \<and> get_stats L t =
       (case stats_bw L h (world t) of
          (r, w) \<Rightarrow> (reraise IPFSError ''Failed to get stats: '' r, t\<lparr>world := w\<rparr>))
   \<and> (fails_only_with IPFSError (fst (add_file L fp pn t))
      \<and> fails_only_with IPFSError (fst (add_data L d pn t))
      \<and> fails_only_with IPFSError (fst (get_file L c op t))
      \<and> fails_only_with IPFSError (fst (get_data L c t))
      \<and> fails_only_with IPFSError (fst (pin L c t))
      \<and> fails_only_with IPFSError (fst (unpin L c t))
      \<and> fails_only_with IPFSError (fst (list_pins L t))
      \<and> fails_only_with IPFSError (fst (get_stats L t)))"
proof -
  from assms have ht: "priv_client (self t) = Some h"
    by simp
  have st: "self t = self s \<and> world t = snd (client_close L h (world s))"
    using assms by (simp add: close_on_handle)
  have fl: "fails_only_with IPFSError (fst (add_file L fp pn t))
      \<and> fails_only_with IPFSError (fst (add_data L d pn t))
      \<and> fails_only_with IPFSError (fst (get_file L c op t))
      \<and> fails_only_with IPFSError (fst (get_data L c t))
      \<and> fails_only_with IPFSError (fst (pin L c t))
      \<and> fails_only_with IPFSError (fst (unpin L c t))
      \<and> fails_only_with IPFSError (fst (list_pins L t))
      \<and> fails_only_with IPFSError (fst (get_stats L t))"
    by (simp only: add_file_fails add_data_fails get_file_fails get_data_fails
        pin_fails unpin_fails list_pins_fails get_stats_fails simp_thms)
  show ?thesis
    by (intro conjI st fl add_file_on_handle[OF ht] add_data_on_handle[OF ht]
        get_file_on_handle[OF ht] get_data_on_handle[OF ht] pin_on_handle[OF ht]
        unpin_on_handle[OF ht] list_pins_on_handle[OF ht] get_stats_on_handle[OF ht])
qed

text \<open>
  C4, witness: the client after \<^verbatim>\<open>connect\<close> and \<^verbatim>\<open>close\<close> on a node holding one block; the node
  still answers, so \<^verbatim>\<open>get_stats\<close> returns the statistics and \<^verbatim>\<open>unpin\<close> of a block that is not
  pinned raises \<^verbatim>\<open>IPFSError\<close> with the node's message.
\<close>

theorem data_operation_after_close_witness:
  "priv_client (self (connected False (store_block ''hello'' False empty_node))) = Some 1
   \<and> fst (get_stats (node_library False)
        (snd (close (node_library False)
           (connected False (store_block ''hello'' False empty_node)))))
     = Inr (PyDict [(PyStr (ascii ''TotalIn''), PyInt 0), (PyStr (ascii ''TotalOut''), PyInt 0)])
   \<and> fst (unpin (node_library False) (cid_of ''hello'')
        (snd (close (node_library False)
           (connected False (store_block ''hello'' False empty_node)))))
     = Inl (Exn IPFSError (Formatted ''Failed to unpin content: '' (Literal ''not pinned'')))"
proof -
  have h: "priv_client (self (connected False (store_block ''hello'' False empty_node))) = Some 1"
    by (simp add: connected_eq store_block_def empty_node_def)
  from data_operation_after_close[OF h refl, where L = "node_library False"
      and c = "cid_of ''hello''"]
  show ?thesis using h
    by (simp add: connected_eq node_eval reraise_def)
qed

text \<open>
  C4, counterexample to the claim as stated (a data operation on a closed client fails with
  \<^verbatim>\<open>IPFSConnectionError\<close>): after \<^verbatim>\<open>connect\<close> and \<^verbatim>\<open>close\<close>, \<^verbatim>\<open>pin\<close> of a stored block returns
  \<^verbatim>\<open>True\<close>.
\<close>

theorem closed_client_pin_counterexample:
  "fst (pin (node_library False) (cid_of ''hello'')
         (snd (close (node_library False)
            (connected False (store_block ''hello'' False empty_node)))))
     = Inr True"
  by (simp add: connected_eq client_eval node_eval)



text \<open>
  Without that property of the library the second \<^verbatim>\<open>close\<close> is not a no-op: \<^verbatim>\<open>close\<close> does not
  reset \<^verbatim>\<open>_client\<close>, and on a library that refuses to close a session that is not open the
  second call raises the library's exception.
\<close>

lemma second_close_on_strict_library:
  "fst (close (node_library True) (connected True empty_node)) = Inr ()
   \<and> fst (close (node_library True)
            (snd (close (node_library True) (connected True empty_node))))
       = Inl (Exn (OtherException ''SessionClosed'') (Literal ''session is not open''))"
  by (simp add: connected_eq client_eval node_eval)

text \<open>
  C6.  \<^verbatim>\<open>is_connected\<close> never raises: in every state of the client and for every behaviour
  of the library it returns a Boolean, \<^verbatim>\<open>True\<close> when the client holds a handle and the
  library's \<^verbatim>\<open>id\<close> call on it returns, \<^verbatim>\<open>False\<close> when there is no handle or the call raises
  anything at all.
\<close>

theorem is_connected_never_raises:
  "fst (is_connected L s) =
     Inr (case priv_client (self s) of
            None \<Rightarrow> False
          | Some h \<Rightarrow> (case fst (client_id L h (world s)) of Inl e \<Rightarrow> False | Inr u \<Rightarrow> True))"
  by (simp add: is_connected_def on_client_def split: option.splits prod.splits sum.splits)

section \<open>Writing a fetched file: \<^verbatim>\<open>get_file\<close>\<close>

lemma get_file_empty_path: "get_file L c (Some (Str [])) s = get_file L c None s"
  by (simp add: get_file_def split: prod.splits sum.splits)

text \<open>
  C7.  When the node returns bytes for the identifier, an output path is given (to Python
  the empty string is no path), and the creation of the parent directories and the write
  both succeed, \<^verbatim>\<open>get_file\<close> runs \<^verbatim>\<open>mkdir(parents=True, exist_ok=True)\<close> on the parent of the
  path, so that missing parent directories are created and existing ones accepted, then
  \<^verbatim>\<open>write_bytes\<close> on the path with exactly the bytes the node returned, and returns those
  bytes, the same as \<^verbatim>\<open>get_file\<close> without an output path returns from the same state.
\<close>

theorem get_file_writes_output:
  assumes "priv_client (self s) = Some h"
    and "client_cat L h c (world s) = (Inr data, w1)"
    and "truthy (Some p)"
    and "path_mkdir L (path_parent L (as_path p)) True True w1 = (Inr (), w2)"
    and "path_write_bytes L (as_path p) data w2 = (Inr (), w3)"
  shows "get_file L c (Some p) s = (Inr data, s\<lparr>world := w3\<rparr>)
       \<and> get_file L c None s = (Inr data, s\<lparr>world := w1\<rparr>)"
  using assms by (simp add: get_file_def on_client_Some)

text \<open>
  C7, witness: fetching the block \<^verbatim>\<open>hello\<close> into \<^verbatim>\<open>/out/sub/a.bin\<close> on a file system with
  neither \<^verbatim>\<open>/out\<close> nor \<^verbatim>\<open>/out/sub\<close> creates both and writes the file; on a file system
  where the directories exist and the file holds other bytes, it replaces them.
\<close>

theorem get_file_writes_output_witness:
  "get_file (node_library False) (cid_of ''hello'') (Some (Str ''/out/sub/a.bin''))
       (connected False (store_block ''hello'' False empty_node))
     = (Inr ''hello'',
        (connected False (store_block ''hello'' False empty_node))
          \<lparr>world := (world (connected False (store_block ''hello'' False empty_node)))
             \<lparr>dirs := [''/'', ''.'', ''/out'', ''/out/sub''],
              files := [(''/out/sub/a.bin'', ''hello'')]\<rparr>\<rparr>)
   \<and> get_file (node_library False) (cid_of ''hello'') None
       (connected False (store_block ''hello'' False empty_node))
     = (Inr ''hello'',
        (connected False (store_block ''hello'' False empty_node))
          \<lparr>world := world (connected False (store_block ''hello'' False empty_node))\<rparr>)
   \<and> get_file (node_library False) (cid_of ''hello'') (Some (Path ''/out/sub/a.bin''))
       (connected False
          ((store_block ''hello'' False empty_node)
             \<lparr>dirs := [''/'', ''.'', ''/out'', ''/out/sub''],
              files := [(''/out/sub/a.bin'', ''old content'')]\<rparr>))
     = (Inr ''hello'',
        (connected False
          ((store_block ''hello'' False empty_node)
             \<lparr>dirs := [''/'', ''.'', ''/out'', ''/out/sub''],
              files := [(''/out/sub/a.bin'', ''old content'')]\<rparr>))
          \<lparr>world := (world (connected False
                ((store_block ''hello'' False empty_node)
                   \<lparr>dirs := [''/'', ''.'', ''/out'', ''/out/sub''],
                    files := [(''/out/sub/a.bin'', ''old content'')]\<rparr>)))
             \<lparr>files := [(''/out/sub/a.bin'', ''hello'')]\<rparr>\<rparr>)"
proof -
  let ?L = "node_library False"
  let ?s = "connected False (store_block ''hello'' False empty_node)"
  let ?w2 = "(world ?s)\<lparr>dirs := [''/'', ''.'', ''/out'', ''/out/sub'']\<rparr>"
  have h1: "priv_client (self ?s) = Some 1"
    by (simp add: connected_eq store_block_def empty_node_def)
  have h2: "client_cat ?L 1 (cid_of ''hello'') (world ?s) = (Inr ''hello'', world ?s)"
    by (simp add: connected_eq node_eval)
  have h3: "truthy (Some (Str ''/out/sub/a.bin''))"
    by simp
  have h4: "path_mkdir ?L (path_parent ?L (as_path (Str ''/out/sub/a.bin''))) True True (world ?s)
      = (Inr (), ?w2)"
    by (simp add: connected_eq node_eval)
  have h5: "path_write_bytes ?L (as_path (Str ''/out/sub/a.bin'')) ''hello'' ?w2
      = (Inr (), ?w2\<lparr>files := [(''/out/sub/a.bin'', ''hello'')]\<rparr>)"
    by (simp add: connected_eq node_eval)
  let ?t = "connected False
          ((store_block ''hello'' False empty_node)
             \<lparr>dirs := [''/'', ''.'', ''/out'', ''/out/sub''],
              files := [(''/out/sub/a.bin'', ''old content'')]\<rparr>)"
  have k1: "priv_client (self ?t) = Some 1"
    by (simp add: connected_eq store_block_def empty_node_def)
  have k2: "client_cat ?L 1 (cid_of ''hello'') (world ?t) = (Inr ''hello'', world ?t)"
    by (simp add: connected_eq node_eval)
  have k3: "truthy (Some (Path ''/out/sub/a.bin''))"
    by simp
  have k4: "path_mkdir ?L (path_parent ?L (as_path (Path ''/out/sub/a.bin''))) True True (world ?t)
      = (Inr (), world ?t)"
    by (simp add: connected_eq node_eval)
  have k5: "path_write_bytes ?L (as_path (Path ''/out/sub/a.bin'')) ''hello'' (world ?t)
      = (Inr (), (world ?t)\<lparr>files := [(''/out/sub/a.bin'', ''hello'')]\<rparr>)"
    by (simp add: connected_eq node_eval)
  from get_file_writes_output[OF h1 h2 h3 h4 h5] get_file_writes_output[OF k1 k2 k3 k4 k5]
  show ?thesis
    by simp
qed

section \<open>Round trip through the node: \<^verbatim>\<open>add_data\<close> then \<^verbatim>\<open>get_data\<close>\<close>

subsection \<open>Strings\<close>

text \<open>
  The scanner reads the escapes of \<^verbatim>\<open>json.dumps\<close> back, code point by code point.  It joins a
  high surrogate and a low surrogate that follows it, so a string comes back as it was when
  it holds no such pair.
\<close>

lemma hex_val_hex_digit: "d < 16 \<Longrightarrow> hex_val (hex_digit d) = Some d"
  by (auto simp: hex_val_def hex_digit_def)

lemma hex4_arith:
  assumes "x < 65536"
  shows "((x div 4096 mod 16 * 16 + x div 256 mod 16) * 16 + x div 16 mod 16) * 16 + x mod 16
         = (x::nat)"
proof -
  define a where "a = x div 16"
  define b where "b = a div 16"
  define c where "c = b div 16"
  have 1: "x div 256 = b"
    unfolding a_def b_def by (simp add: div_mult2_eq)
  have 2: "x div 4096 = c"
    unfolding a_def b_def c_def by (simp add: div_mult2_eq)
  have "c < 16"
    unfolding 2[symmetric] using assms by (simp add: less_mult_imp_div_less)
  then have 3: "c mod 16 = c"
    by simp
  have x: "a * 16 + x mod 16 = x"
    unfolding a_def by simp
  have a: "b * 16 + a mod 16 = a"
    unfolding b_def by simp
  have b: "c * 16 + b mod 16 = b"
    unfolding c_def by simp
  show ?thesis
    unfolding 1 2 3 a_def[symmetric] by (simp only: a b x)
qed

lemma hex4_val_hex4: "x < 65536 \<Longrightarrow> hex4_val (hex4 x) = Some x"
  unfolding hex4_val_def hex4_def
  by (simp only: list.map hex_val_hex_digit mod_less_divisor[of 16, simplified] list.case option.case hex4_arith)

lemma length_hex4 [simp]: "length (hex4 x) = 4"
  by (simp add: hex4_def)

lemma take4_hex4 [simp]: "take 4 (hex4 x @ r) = hex4 x"
  by simp

lemma drop4_hex4 [simp]: "drop 4 (hex4 x @ r) = r"
  by simp

lemma low_surrogate_quote: "low_surrogate (34 # r) = None"
  by (simp add: low_surrogate_def split: list.splits)

lemma low_surrogate_hex4:
  "x < 65536 \<Longrightarrow> low_surrogate (92 # 117 # hex4 x @ r) = (if is_low x then Some x else None)"
  by (simp add: low_surrogate_def hex4_val_hex4 is_low_def)

lemma low_surrogate_escape:
  assumes "c < 0x110000" and "\<not> is_low c"
  shows "low_surrogate (escape_point c @ r) = None"
proof -
  consider (short) "c \<in> {34, 92, 10, 13, 9, 12, 8}"
    | (lit) "c \<notin> {34, 92, 10, 13, 9, 12, 8}" "32 \<le> c" "c \<le> 126"
    | (bmp) "c \<notin> {34, 92, 10, 13, 9, 12, 8}" "\<not> (32 \<le> c \<and> c \<le> 126)" "c < 0x10000"
    | (astral) "0x10000 \<le> c"
    by fastforce
  then show ?thesis
  proof cases
    case short
    then show ?thesis
      by (auto simp: escape_point_def low_surrogate_def)
  next
    case lit
    then show ?thesis
      by (cases r) (auto simp: escape_point_def low_surrogate_def)
  next
    case bmp
    then have e: "escape_point c = 92 # 117 # hex4 c"
      by (auto simp: escape_point_def)
    show ?thesis
      unfolding e using bmp(3) assms(2) by (simp add: low_surrogate_hex4)
  next
    case astral
    define h where "h = 0xD800 + (c - 0x10000) div 1024"
    have hh: "h < 65536" "\<not> is_low h"
      using assms(1) astral unfolding h_def is_low_def by auto
    have e: "escape_point c = 92 # 117 # hex4 h @ ([92, 117] @ hex4 (0xDC00 + (c - 0x10000) mod 1024))"
      using astral by (auto simp: escape_point_def h_def)
    show ?thesis
      unfolding e using hh by (simp only: append_Cons append_assoc low_surrogate_hex4 if_False)
  qed
qed

lemma scan_string_escape:
  assumes "c < 0x110000" and "is_high c \<Longrightarrow> low_surrogate r = None"
  shows "scan_string (escape_point c @ r) = map_option (\<lambda>(s, t). (c # s, t)) (scan_string r)"
proof -
  consider (short) "c \<in> {34, 92, 10, 13, 9, 12, 8}"
    | (lit) "c \<notin> {34, 92, 10, 13, 9, 12, 8}" "32 \<le> c" "c \<le> 126"
    | (bmp) "c \<notin> {34, 92, 10, 13, 9, 12, 8}" "\<not> (32 \<le> c \<and> c \<le> 126)" "c < 0x10000"
    | (astral) "0x10000 \<le> c"
    by fastforce
  then show ?thesis
  proof cases
    case short
    then show ?thesis
      by (auto simp: escape_point_def simple_escape_def)
  next
    case lit
    then show ?thesis
      by (auto simp: escape_point_def)
  next
    case bmp
    then have e: "escape_point c = 92 # 117 # hex4 c"
      by (auto simp: escape_point_def)
    show ?thesis
    proof (cases "is_high c")
      case True
      with assms(2) have "low_surrogate r = None" by simp
      with True bmp(3) show ?thesis
        unfolding e by (simp add: hex4_val_hex4 is_high_def)
    next
      case False
      with bmp(3) show ?thesis
        unfolding e by (auto simp: hex4_val_hex4 is_high_def)
    qed
  next
    case astral
    define h where "h = 0xD800 + (c - 0x10000) div 1024"
    define l where "l = 0xDC00 + (c - 0x10000) mod 1024"
    have hh: "h < 65536" "0xD800 \<le> h" "h \<le> 0xDBFF"
      using assms(1) astral unfolding h_def by auto
    have ll: "l < 65536" "is_low l"
      unfolding l_def is_low_def by auto
    have j: "0x10000 + (h - 0xD800) * 1024 + (l - 0xDC00) = c"
      using astral unfolding h_def l_def by simp
    have e: "escape_point c = 92 # 117 # hex4 h @ 92 # 117 # hex4 l"
      using astral by (auto simp: escape_point_def h_def l_def)
    have d: "drop 10 (hex4 h @ 92 # 117 # hex4 l @ r) = r"
      by simp
    have ls: "low_surrogate (92 # 117 # hex4 l @ r) = Some l"
      using ll by (simp add: low_surrogate_hex4)
    show ?thesis
      unfolding e using hh j
      by (simp add: hex4_val_hex4 ls d)
  qed
qed

lemma scan_string_body:
  "plain_str s \<Longrightarrow> scan_string (concat (map escape_point s) @ 34 # r) = Some (s, r)"
proof (induction s rule: plain_str.induct)
  case 1
  show ?case by simp
next
  case (2 a)
  then show ?case
    by (simp add: scan_string_escape low_surrogate_quote)
next
  case (3 a b cs)
  then have a: "a < 0x110000" and nb: "is_high a \<Longrightarrow> \<not> is_low b"
    and ps: "plain_str (b # cs)"
    by auto
  have b: "b < 0x110000"
    using ps by (cases cs) auto
  have "is_high a \<Longrightarrow>
      low_surrogate (escape_point b @ (concat (map escape_point cs) @ 34 # r)) = None"
    using nb b by (simp add: low_surrogate_escape)
  from scan_string_escape[OF a this] 3(1)[OF ps] show ?case
    by simp
qed

lemma scan_once_string:
  "plain_str s \<Longrightarrow> scan_once P (Suc n) d (encode_str s @ r) = Inr (PyStr s, r)"
  by (simp add: encode_str_def scan_string_body)

subsection \<open>Numbers\<close>

text \<open>What the scanner takes for a number does not change when a delimiter follows it.\<close>


lemma delimited_simps [simp]:
  "delimited []" "delimited (44 # u)" "delimited (93 # u)" "delimited (125 # u)"
  by (simp_all add: delimited_def)

lemma takeWhile_digit_delimited: "delimited r \<Longrightarrow> takeWhile is_digit r = []"
  by (cases r) (auto simp: delimited_def is_digit_def)

lemma takeWhile_digit_append:
  "delimited r \<Longrightarrow> takeWhile is_digit (xs @ r) = takeWhile is_digit xs"
  by (induction xs) (simp_all add: takeWhile_digit_delimited)

lemma int_part_append: "delimited r \<Longrightarrow> int_part (a @ r) = int_part a"
proof (cases a)
  case Nil
  assume "delimited r"
  then show ?thesis
    unfolding Nil by (cases r) (auto simp: int_part_def delimited_def is_digit_def)
next
  case (Cons c u)
  assume "delimited r"
  then show ?thesis
    unfolding Cons by (simp add: int_part_def takeWhile_digit_append)
qed

lemma frac_part_append: "delimited r \<Longrightarrow> frac_part (a @ r) = frac_part a"
proof -
  assume d: "delimited r"
  consider "a = []" | c where "a = [c]" | c e u where "a = c # e # u"
    by (cases a; cases "tl a") auto
  then show ?thesis
  proof cases
    case 1
    with d show ?thesis
      by (cases r; cases "tl r") (auto simp: frac_part_def delimited_def split: list.splits)
  next
    case 2
    with d show ?thesis
      by (cases r) (auto simp: frac_part_def delimited_def is_digit_def)
  next
    case 3
    with d show ?thesis
      by (simp add: frac_part_def takeWhile_digit_append)
  qed
qed

lemma exp_part_append: "delimited r \<Longrightarrow> exp_part (a @ r) = exp_part a"
proof -
  assume d: "delimited r"
  consider "a = []" | c where "a = [c]" | c e where "a = [c, e]"
    | c e x u where "a = c # e # x # u"
    by (cases a; cases "tl a"; cases "tl (tl a)") auto
  then show ?thesis
  proof cases
    case 1
    with d show ?thesis
      by (cases r; cases "tl r") (auto simp: exp_part_def delimited_def split: list.splits)
  next
    case 2
    with d show ?thesis
      by (cases r) (auto simp: exp_part_def delimited_def is_digit_def)
  next
    case 3
    with d takeWhile_digit_delimited[OF d] show ?thesis
      by (cases r) (auto simp: exp_part_def delimited_def is_digit_def)
  next
    case 4
    with d show ?thesis
      using takeWhile_digit_append[OF d, of "x # u"] takeWhile_digit_append[OF d, of "e # x # u"]
      by (simp add: exp_part_def)
  qed
qed

lemma int_part_le: "int_part cs = Some i \<Longrightarrow> i \<le> length cs"
  by (cases cs)
     (auto simp: int_part_def split: if_splits intro: order_trans[OF length_takeWhile_le])

lemma frac_part_le: "frac_part cs \<le> length cs"
  using length_takeWhile_le[of is_digit]
  by (auto simp: frac_part_def split: list.splits)

lemma exp_part_le: "exp_part cs \<le> length cs"
proof -
  consider "cs = []" | c where "cs = [c]" | c e u where "cs = c # e # u"
    by (cases cs; cases "tl cs") auto
  then show ?thesis
  proof cases
    case 3
    have 1: "length (takeWhile is_digit u) \<le> length u"
      by (rule length_takeWhile_le)
    have 2: "length (takeWhile is_digit (e # u)) \<le> Suc (length u)"
      using length_takeWhile_le[of is_digit "e # u"] by simp
    have 4: "length (takeWhile is_digit [e]) \<le> Suc 0"
      using length_takeWhile_le[of is_digit "[e]"] by simp
    show ?thesis
      unfolding 3 exp_part_def using 1 2 4 by (simp del: takeWhile.simps)
  qed (simp_all add: exp_part_def)
qed

lemma match_number_append:
  assumes "delimited r" and "match_number x = Some (l, fl, t)"
  shows "match_number (x @ r) = Some (l, fl, t @ r)"
proof -
  from assms(2) have ne: "x \<noteq> []"
    by (auto simp: match_number_def int_part_def)
  define sg :: nat where "sg = (if take 1 x = [45] then 1 else 0)"
  have sg': "(if take 1 (x @ r) = [45] then 1 else 0) = sg"
    using ne unfolding sg_def by (cases x) auto
  have sgl: "sg \<le> length x"
    using ne unfolding sg_def by (cases x) auto
  from assms(2) obtain i where i: "int_part (drop sg x) = Some i"
    unfolding match_number_def sg_def[symmetric] by (auto simp: Let_def split: option.splits)
  define f where "f = frac_part (drop (sg + i) x)"
  define e where "e = exp_part (drop (sg + i + f) x)"
  have res: "l = take (sg + i + f + e) x" "fl = (0 < f \<or> 0 < e)" "t = drop (sg + i + f + e) x"
    using assms(2) i unfolding match_number_def sg_def[symmetric] f_def e_def
    by (auto simp: Let_def)
  have il: "sg + i \<le> length x"
    using int_part_le[OF i] sgl by simp
  have fl: "sg + i + f \<le> length x"
    using frac_part_le[of "drop (sg + i) x"] il unfolding f_def by simp
  have el: "sg + i + f + e \<le> length x"
    using exp_part_le[of "drop (sg + i + f) x"] fl unfolding e_def by simp
  have 1: "int_part (drop sg (x @ r)) = Some i"
    using sgl i by (simp add: int_part_append[OF assms(1)])
  have 2: "frac_part (drop (sg + i) (x @ r)) = f"
    using il unfolding f_def by (simp add: frac_part_append[OF assms(1)])
  have 3: "exp_part (drop (sg + i + f) (x @ r)) = e"
    using fl unfolding e_def by (simp add: exp_part_append[OF assms(1)])
  show ?thesis
    unfolding match_number_def sg' Let_def 1 2 3 option.case res using el by simp
qed

text \<open>The decimal text of an integer is read back as that integer.\<close>

lemma dec_nat_digits: "list_all is_digit (dec_nat n)"
proof (induction n rule: dec_nat.induct)
  case (1 n)
  show ?case
  proof (cases "n < 10")
    case True
    then show ?thesis by (subst dec_nat.simps) (simp add: is_digit_def)
  next
    case False
    have "n mod 10 < 10" by simp
    then have "is_digit (48 + n mod 10)" by (simp add: is_digit_def)
    with 1 False show ?thesis by (subst dec_nat.simps) simp
  qed
qed

lemma dec_nat_not_Nil: "dec_nat n \<noteq> []"
  by (subst dec_nat.simps) simp

lemma dec_nat_hd: "hd (dec_nat n) = 48 \<longleftrightarrow> n = 0"
proof (induction n rule: dec_nat.induct)
  case (1 n)
  show ?case
  proof (cases "n < 10")
    case True
    then show ?thesis by (subst dec_nat.simps) simp
  next
    case False
    then have "n div 10 \<noteq> 0" by simp
    with 1 False show ?thesis
      by (subst dec_nat.simps) (simp add: dec_nat_not_Nil)
  qed
qed

lemma dec_nat_0: "dec_nat 0 = [48]"
  by (subst dec_nat.simps) simp

lemma digits_val_snoc: "digits_val acc (xs @ [d]) = digits_val acc xs * 10 + (d - 48)"
  by (induction xs arbitrary: acc) simp_all

lemma digits_val_dec_nat: "digits_val 0 (dec_nat n) = n"
proof (induction n rule: dec_nat.induct)
  case (1 n)
  show ?case
  proof (cases "n < 10")
    case True
    then show ?thesis by (subst dec_nat.simps) simp
  next
    case False
    with 1 show ?thesis
      by (subst dec_nat.simps) (simp add: digits_val_snoc)
  qed
qed

lemma takeWhile_digits: "list_all is_digit xs \<Longrightarrow> takeWhile is_digit xs = xs"
  by (induction xs) auto

lemma int_part_dec_nat: "int_part (dec_nat n) = Some (length (dec_nat n))"
proof (cases "n = 0")
  case True
  then show ?thesis by (simp add: dec_nat_0 int_part_def)
next
  case False
  obtain c u where cu: "dec_nat n = c # u"
    using dec_nat_not_Nil[of n] by (cases "dec_nat n") auto
  have d: "is_digit c" "list_all is_digit u"
    using dec_nat_digits[of n] unfolding cu by auto
  have "c \<noteq> 48"
    using dec_nat_hd[of n] False unfolding cu by simp
  with d show ?thesis
    unfolding cu by (simp add: int_part_def takeWhile_digits)
qed

lemma dec_nat_take1: "take 1 (dec_nat n) \<noteq> [45]"
proof -
  obtain c u where cu: "dec_nat n = c # u"
    using dec_nat_not_Nil[of n] by (cases "dec_nat n") auto
  have "is_digit c"
    using dec_nat_digits[of n] unfolding cu by auto
  then show ?thesis
    unfolding cu by (auto simp: is_digit_def)
qed

lemma match_number_dec_nat: "match_number (dec_nat n) = Some (dec_nat n, False, [])"
  using dec_nat_take1[of n]
  by (simp add: match_number_def int_part_dec_nat frac_part_def exp_part_def)

lemma match_number_neg:
  "match_number (45 # dec_nat n) = Some (45 # dec_nat n, False, [])"
  by (simp add: match_number_def int_part_dec_nat frac_part_def exp_part_def)

lemma match_number_int_str: "match_number (int_str i) = Some (int_str i, False, [])"
  by (simp add: int_str_def match_number_dec_nat match_number_neg)

lemma int_of_literal_int_str:
  "\<not> exceeds_digits P (length (dec_nat (nat \<bar>i\<bar>))) \<Longrightarrow>
   int_of_literal P (int_str i) = Inr (PyInt i)"
proof (cases "i < 0")
  case True
  assume "\<not> exceeds_digits P (length (dec_nat (nat \<bar>i\<bar>)))"
  moreover from True have "nat \<bar>i\<bar> = nat (- i)" by simp
  ultimately show ?thesis
    using True by (simp add: int_of_literal_def int_str_def digits_val_dec_nat)
next
  case False
  assume "\<not> exceeds_digits P (length (dec_nat (nat \<bar>i\<bar>)))"
  moreover from False have "nat \<bar>i\<bar> = nat i" by simp
  ultimately show ?thesis
    using False dec_nat_take1[of "nat i"]
    by (simp add: int_of_literal_def int_str_def digits_val_dec_nat)
qed

text \<open>A text that starts as a number is scanned as a number.\<close>

lemma match_number_head:
  assumes "match_number x = Some (l, fl, t)"
  shows "\<exists>c u. x = c # u \<and> (is_digit c \<or> (c = 45 \<and> (\<exists>d v. u = d # v \<and> is_digit d)))"
proof -
  from assms obtain c u where cu: "x = c # u"
    by (cases x) (auto simp: match_number_def int_part_def)
  show ?thesis
  proof (cases "c = 45")
    case True
    with assms cu obtain i where "int_part u = Some i"
      by (auto simp: match_number_def Let_def split: option.splits)
    then obtain d v where "u = d # v" "is_digit d"
      by (cases u) (auto simp: int_part_def is_digit_def split: if_splits)
    with cu True show ?thesis by auto
  next
    case False
    with assms cu obtain i where "int_part (c # u) = Some i"
      by (auto simp: match_number_def Let_def split: option.splits)
    then have "is_digit c"
      by (auto simp: int_part_def is_digit_def split: if_splits)
    with cu show ?thesis by auto
  qed
qed

lemma scan_once_number:
  assumes "match_number x = Some (l, fl, t)"
  shows "scan_once P (Suc n) d x = scan_number P x"
proof -
  from match_number_head[OF assms] obtain c u where cu: "x = c # u"
    and h: "is_digit c \<or> (c = 45 \<and> (\<exists>d v. u = d # v \<and> is_digit d))"
    by blast
  from h show ?thesis
  proof
    assume "is_digit c"
    then show ?thesis
      unfolding cu by (auto simp: is_digit_def ascii_def)
  next
    assume "c = 45 \<and> (\<exists>d v. u = d # v \<and> is_digit d)"
    then obtain e v where "c = 45" "u = e # v" "is_digit e"
      by blast
    then show ?thesis
      unfolding cu by (auto simp: is_digit_def ascii_def)
  qed
qed

lemma scan_once_int:
  assumes "\<not> exceeds_digits P (length (dec_nat (nat \<bar>i\<bar>)))" and "delimited r"
  shows "scan_once P (Suc n) d (int_str i @ r) = Inr (PyInt i, r)"
proof -
  have m: "match_number (int_str i @ r) = Some (int_str i, False, [] @ r)"
    using assms(2) match_number_int_str by (rule match_number_append)
  show ?thesis
    unfolding scan_once_number[OF m]
    by (simp add: scan_number_def m int_of_literal_int_str[OF assms(1)])
qed

lemma scan_once_float:
  assumes "match_number x = Some (x, True, [])" and "delimited r"
  shows "scan_once P (Suc n) d (x @ r) = Inr (PyFloat (float_repr P x), r)"
proof -
  have m: "match_number (x @ r) = Some (x, True, [] @ r)"
    using assms(2,1) by (rule match_number_append)
  show ?thesis
    unfolding scan_once_number[OF m] by (simp add: scan_number_def m)
qed

lemma scan_once_inf:
  "scan_once P (Suc n) d (ascii ''Infinity'' @ r) = Inr (PyFloat (ascii ''inf''), r)"
  "scan_once P (Suc n) d (ascii ''-Infinity'' @ r) = Inr (PyFloat (ascii ''-inf''), r)"
  by (simp_all add: ascii_def)

lemma scan_once_words:
  "scan_once P (Suc n) d (ascii ''null'' @ r) = Inr (PyNone, r)"
  "scan_once P (Suc n) d (ascii ''true'' @ r) = Inr (PyBool True, r)"
  "scan_once P (Suc n) d (ascii ''false'' @ r) = Inr (PyBool False, r)"
  by (simp_all add: ascii_def)

text \<open>The text of a number is ASCII.\<close>

lemma ascii_only_digits: "list_all is_digit xs \<Longrightarrow> ascii_only xs"
  by (induction xs) (auto simp: ascii_only_def is_digit_def)

lemma ascii_only_takeWhile_digit: "ascii_only (takeWhile is_digit xs)"
  by (induction xs) (auto simp: ascii_only_def is_digit_def)

lemma take_takeWhile: "take (length (takeWhile p xs)) xs = takeWhile p xs"
  by (induction xs) auto

lemma ascii_only_int_part: "int_part cs = Some i \<Longrightarrow> ascii_only (take i cs)"
  using ascii_only_takeWhile_digit
  by (cases cs) (auto simp: int_part_def ascii_only_def is_digit_def take_takeWhile
      split: if_splits)

lemma ascii_only_frac_part: "ascii_only (take (frac_part cs) cs)"
proof -
  consider "cs = []" | c where "cs = [c]" | c e u where "cs = c # e # u"
    by (cases cs; cases "tl cs") auto
  then show ?thesis
  proof cases
    case 3
    show ?thesis
      unfolding 3 using ascii_only_takeWhile_digit[of u]
      by (auto simp: frac_part_def ascii_only_def is_digit_def take_takeWhile)
  qed (simp_all add: frac_part_def ascii_only_def)
qed

lemma ascii_only_exp_part: "ascii_only (take (exp_part cs) cs)"
proof -
  consider "cs = []" | c where "cs = [c]" | c e u where "cs = c # e # u"
    by (cases cs; cases "tl cs") auto
  then show ?thesis
  proof cases
    case 3
    have 1: "take (length (takeWhile is_digit (e # u))) (e # u) = takeWhile is_digit (e # u)"
      by (rule take_takeWhile)
    have 2: "ascii_only (takeWhile is_digit (e # u))" "ascii_only (takeWhile is_digit u)"
      by (rule ascii_only_takeWhile_digit)+
    have 3: "ascii_only [c, e] \<or> exp_part (c # e # u) = 0 \<or> \<not> (e = 43 \<or> e = 45)"
      by (auto simp: exp_part_def ascii_only_def)
    have 4: "c = 101 \<or> c = 69 \<or> exp_part (c # e # u) = 0"
      by (auto simp: exp_part_def)
    show ?thesis
      unfolding \<open>cs = c # e # u\<close> using 1 2 4
      by (auto simp: exp_part_def ascii_only_def take_takeWhile simp del: takeWhile.simps)
  qed (simp_all add: exp_part_def ascii_only_def)
qed

lemma ascii_only_append: "ascii_only (a @ b) = (ascii_only a \<and> ascii_only b)"
  by (simp add: ascii_only_def)

lemma match_number_ascii:
  assumes "match_number x = Some (l, fl, t)"
  shows "ascii_only l"
proof -
  define sg :: nat where "sg = (if take 1 x = [45] then 1 else 0)"
  from assms obtain i where i: "int_part (drop sg x) = Some i"
    unfolding match_number_def sg_def[symmetric] by (auto simp: Let_def split: option.splits)
  define f where "f = frac_part (drop (sg + i) x)"
  define e where "e = exp_part (drop (sg + i + f) x)"
  have l: "l = take (sg + i + f + e) x"
    using assms i unfolding match_number_def sg_def[symmetric] f_def e_def
    by (auto simp: Let_def)
  have s: "take (sg + i + f + e) x
      = take sg x @ take i (drop sg x) @ take f (drop (sg + i) x) @ take e (drop (sg + i + f) x)"
    by (simp only: take_add append_assoc)
  have 0: "ascii_only (take sg x)"
    unfolding sg_def by (auto simp: ascii_only_def)
  show ?thesis
    unfolding l s ascii_only_append
    using 0 ascii_only_int_part[OF i] ascii_only_frac_part[of "drop (sg + i) x"]
      ascii_only_exp_part[of "drop (sg + i + f) x"]
    unfolding f_def e_def by simp
qed


text \<open>What \<open>dumps\<close> returned, read backwards.\<close>

lemma dumps_PyList_Inr:
  assumes "dumps P n (PyList xs) = Inr t"
  obtains k u where "n = Suc k" "dumps_list P k xs = Inr u" "t = 91 # u @ [93]"
  using assms by (cases n) (auto split: sum.splits)

lemma dumps_PyDict_Inr:
  assumes "dumps P n (PyDict kvs) = Inr t"
  obtains k u where "n = Suc k" "dumps_items P k kvs = Inr u" "t = 123 # u @ [125]"
  using assms by (cases n) (auto split: sum.splits)

lemma dumps_list_Cons_Inr:
  assumes "dumps_list P n (x # xs) = Inr t"
  obtains (last) "xs = []" "dumps P n x = Inr t"
    | (more) tx tr where "xs \<noteq> []" "dumps P n x = Inr tx" "dumps_list P n xs = Inr tr"
        "t = tx @ 44 # 32 # tr"
  using assms by (auto split: sum.splits if_splits)

lemma dumps_items_Cons_Inr:
  assumes "dumps_items P n ((PyStr k, v) # kvs) = Inr t"
  obtains (last) tv where "kvs = []" "dumps P n v = Inr tv" "t = encode_str k @ 58 # 32 # tv"
    | (more) tv tr where "kvs \<noteq> []" "dumps P n v = Inr tv" "dumps_items P n kvs = Inr tr"
        "t = encode_str k @ 58 # 32 # tv @ 44 # 32 # tr"
  using assms by (auto split: sum.splits if_splits)

text \<open>The first character of the text of a value starts a value.\<close>

lemma int_str_head: "\<exists>c u. int_str i = c # u \<and> (is_digit c \<or> c = 45)"
proof -
  obtain c u where cu: "dec_nat (nat i) = c # u"
    using dec_nat_not_Nil[of "nat i"] by (cases "dec_nat (nat i)") auto
  have "is_digit c"
    using dec_nat_digits[of "nat i"] unfolding cu by simp
  with cu show ?thesis
    by (simp add: int_str_def)
qed

lemma float_literal_not_name:
  assumes "match_number x = Some (l, fl, t)"
  shows "float_str x = x"
proof -
  from match_number_head[OF assms] obtain c u where "x = c # u"
    and "is_digit c \<or> (c = 45 \<and> (\<exists>d v. u = d # v \<and> is_digit d))"
    by blast
  then show ?thesis
    by (auto simp: float_str_def ascii_def is_digit_def)
qed

lemma dumps_head:
  assumes "dumps P n v = Inr t" and "plain P v"
  shows "\<exists>c u. t = c # u \<and> \<not> is_ws c \<and> c \<noteq> 93 \<and> c \<noteq> 125"
proof (cases v)
  case PyNone
  with assms show ?thesis by (auto simp: ascii_def is_ws_def)
next
  case (PyBool b)
  with assms show ?thesis by (auto simp: ascii_def is_ws_def)
next
  case (PyInt i)
  with assms have "t = int_str i"
    by (auto simp: int_repr_def split: if_splits)
  with int_str_head[of i] show ?thesis
    by (auto simp: is_digit_def is_ws_def)
next
  case (PyFloat x)
  with assms have t: "t = float_str x" and p: "plain_float P x"
    by auto
  from p consider "x = ascii ''inf''" | "x = ascii ''-inf''" | "match_number x = Some (x, True, [])"
    by (auto simp: plain_float_def)
  then show ?thesis
  proof cases
    case 3
    from match_number_head[OF 3] float_literal_not_name[OF 3] show ?thesis
      unfolding t by (auto simp: is_digit_def is_ws_def)
  qed (auto simp: t float_str_def ascii_def is_ws_def)
next
  case (PyStr s)
  with assms show ?thesis by (auto simp: encode_str_def is_ws_def)
next
  case (PyBytes b)
  with assms show ?thesis by simp
next
  case (PyList xs)
  from assms(1)[unfolded PyList] obtain k u where "t = 91 # u @ [93]"
    by (rule dumps_PyList_Inr)
  then show ?thesis by (simp add: is_ws_def)
next
  case (PyTuple xs)
  with assms show ?thesis by simp
next
  case (PyDict kvs)
  from assms(1)[unfolded PyDict] obtain k u where "t = 123 # u @ [125]"
    by (rule dumps_PyDict_Inr)
  then show ?thesis by (simp add: is_ws_def)
qed

lemma dumps_list_head:
  assumes "dumps_list P n xs = Inr t" and "plain_list P xs" and "xs \<noteq> []"
  shows "\<exists>c u. t = c # u \<and> \<not> is_ws c \<and> c \<noteq> 93 \<and> c \<noteq> 125"
proof -
  from assms(3) obtain x ys where xs: "xs = x # ys" by (cases xs) auto
  from assms(1)[unfolded xs] show ?thesis
  proof (cases rule: dumps_list_Cons_Inr)
    case last
    with dumps_head[of P n x t] assms(2) xs show ?thesis by simp
  next
    case (more tx tr)
    with dumps_head[of P n x tx] assms(2) xs show ?thesis by auto
  qed
qed

lemma dumps_items_head:
  assumes "dumps_items P n kvs = Inr t" and "plain_items P kvs" and "kvs \<noteq> []"
  shows "\<exists>u. t = 34 # u"
proof -
  from assms(3) obtain kv ys where kvs: "kvs = kv # ys" by (cases kvs) auto
  from assms(2) kvs obtain k v where kv: "kv = (PyStr k, v)"
    by (cases kv; cases "fst kv") auto
  from assms(1)[unfolded kvs kv] show ?thesis
    by (cases rule: dumps_items_Cons_Inr) (auto simp: encode_str_def)
qed

text \<open>One step of the scanner.\<close>

lemma skip_ws_start: "\<not> is_ws c \<Longrightarrow> skip_ws (c # u) = c # u"
  by (simp add: skip_ws_def)

lemma skip_ws_space: "skip_ws (32 # u) = skip_ws u"
  by (simp add: skip_ws_def is_ws_def)

lemma not_ws [simp]: "\<not> is_ws 44" "\<not> is_ws 93" "\<not> is_ws 125" "\<not> is_ws 58" "\<not> is_ws 34"
  by (simp_all add: is_ws_def)

lemma scan_once_empty_list: "scan_once P (Suc f) (Suc m) (91 # 93 # r) = Inr (PyList [], r)"
  by (simp add: skip_ws_start)

lemma scan_once_empty_dict: "scan_once P (Suc f) (Suc m) (123 # 125 # r) = Inr (PyDict [], r)"
  by (simp add: skip_ws_start)

lemma scan_once_list:
  "\<not> is_ws c \<Longrightarrow> c \<noteq> 93 \<Longrightarrow>
   scan_once P (Suc f) (Suc m) (91 # c # u) = scan_elements P f m (c # u) []"
  by (simp add: skip_ws_start)

lemma scan_once_dict:
  "scan_once P (Suc f) (Suc m) (123 # 34 # u) = scan_members P f m (34 # u) []"
  by (simp add: skip_ws_start)

lemma scan_elements_last:
  "scan_once P f m cs = Inr (v, 93 # u) \<Longrightarrow>
   scan_elements P (Suc f) m cs acc = Inr (PyList (acc @ [v]), u)"
  by (simp add: skip_ws_start)

lemma scan_elements_more:
  "scan_once P f m cs = Inr (v, 44 # 32 # c # u) \<Longrightarrow> \<not> is_ws c \<Longrightarrow>
   scan_elements P (Suc f) m cs acc = scan_elements P f m (c # u) (acc @ [v])"
  by (simp add: skip_ws_start skip_ws_space)

lemma scan_members_last:
  "plain_str k \<Longrightarrow> \<not> is_ws c \<Longrightarrow> scan_once P f m (c # w) = Inr (v, 125 # u) \<Longrightarrow>
   scan_members P (Suc f) m (encode_str k @ 58 # 32 # c # w) acc
     = Inr (PyDict (dict_set acc (PyStr k) v), u)"
  by (simp add: encode_str_def scan_string_body skip_ws_start skip_ws_space)

lemma scan_members_more:
  "plain_str k \<Longrightarrow> \<not> is_ws c \<Longrightarrow> scan_once P f m (c # w) = Inr (v, 44 # 32 # 34 # u) \<Longrightarrow>
   scan_members P (Suc f) m (encode_str k @ 58 # 32 # c # w) acc
     = scan_members P f m (34 # u) (dict_set acc (PyStr k) v)"
  by (simp add: encode_str_def scan_string_body skip_ws_start skip_ws_space)

lemma dict_set_fresh: "k \<notin> fst ` set acc \<Longrightarrow> dict_set acc k v = acc @ [(k, v)]"
  by (induction acc) auto

subsection \<open>Values\<close>

text \<open>
  The scanner reads the text of a plain value back, leaving what follows it, when it has
  room for the nesting of the value.  The bound on the calls of the model is met by any
  number above the length of the text.
\<close>

lemma scan_dumps:
  "dumps P n v = Inr t \<Longrightarrow> plain P v \<Longrightarrow> depth v \<le> m \<Longrightarrow> length t < f \<Longrightarrow> delimited r
     \<Longrightarrow> scan_once P f m (t @ r) = Inr (v, r)"
  "dumps_list P n xs = Inr t \<Longrightarrow> xs \<noteq> [] \<Longrightarrow> plain_list P xs \<Longrightarrow> depth_list xs \<le> m
     \<Longrightarrow> Suc (length t) < f
     \<Longrightarrow> scan_elements P f m (t @ 93 # r) acc = Inr (PyList (acc @ xs), r)"
  "dumps_items P n kvs = Inr t \<Longrightarrow> kvs \<noteq> [] \<Longrightarrow> plain_items P kvs
     \<Longrightarrow> distinct (map fst (acc' @ kvs)) \<Longrightarrow> depth_items kvs \<le> m \<Longrightarrow> Suc (length t) < f
     \<Longrightarrow> scan_members P f m (t @ 125 # r) acc' = Inr (PyDict (acc' @ kvs), r)"
proof (induction v and xs and kvs arbitrary: n t m f r and n t m f r acc and n t m f r acc'
    rule: depth_depth_list_depth_items.induct)
  case (1 xs)
  from 1(2) obtain k u where d: "n = Suc k" "dumps_list P k xs = Inr u" "t = 91 # u @ [93]"
    by (rule dumps_PyList_Inr)
  from 1(4) obtain m' where m: "m = Suc m'" "depth_list xs \<le> m'"
    by (cases m) auto
  from 1(5) d(3) obtain f' where f: "f = Suc f'" "Suc (length u) < f'"
    by (cases f) auto
  show ?case
  proof (cases "xs = []")
    case True
    with d(2) have "u = []" by simp
    then show ?thesis
      unfolding d(3) m(1) f(1) True by (simp only: append_Nil append_Cons scan_once_empty_list)
  next
    case False
    from 1(3) have pl: "plain_list P xs" by simp
    from dumps_list_head[OF d(2) pl False] obtain c w where
      u: "u = c # w" and c: "\<not> is_ws c" "c \<noteq> 93"
      by blast
    have "scan_once P f m (t @ r) = scan_elements P f' m' (u @ 93 # r) []"
      unfolding d(3) m(1) f(1) u using c by (simp only: append_Cons append_Nil append_assoc scan_once_list simp_thms)
    also have "\<dots> = Inr (PyList ([] @ xs), r)"
      using d(2) False pl m(2) f(2) by (rule 1(1))
    finally show ?thesis by simp
  qed
next
  case (2 kvs)
  from 2(2) obtain k u where d: "n = Suc k" "dumps_items P k kvs = Inr u" "t = 123 # u @ [125]"
    by (rule dumps_PyDict_Inr)
  from 2(4) obtain m' where m: "m = Suc m'" "depth_items kvs \<le> m'"
    by (cases m) auto
  from 2(5) d(3) obtain f' where f: "f = Suc f'" "Suc (length u) < f'"
    by (cases f) auto
  show ?case
  proof (cases "kvs = []")
    case True
    with d(2) have "u = []" by simp
    then show ?thesis
      unfolding d(3) m(1) f(1) True by (simp only: append_Nil append_Cons scan_once_empty_dict)
  next
    case False
    from 2(3) have pl: "plain_items P kvs" and di: "distinct (map fst ([] @ kvs))" by simp_all
    from dumps_items_head[OF d(2) pl False] obtain w where u: "u = 34 # w"
      by blast
    have "scan_once P f m (t @ r) = scan_members P f' m' (u @ 125 # r) []"
      unfolding d(3) m(1) f(1) u by (simp only: append_Cons append_Nil append_assoc scan_once_dict simp_thms)
    also have "\<dots> = Inr (PyDict ([] @ kvs), r)"
      using d(2) False pl di m(2) f(2) by (rule 2(1))
    finally show ?thesis by simp
  qed
next
  case 3
  then obtain f' where f: "f = Suc f'" by (cases f) auto
  from 3(1) have t: "t = ascii ''null''" by simp
  show ?case
    unfolding t f by (rule scan_once_words)
next
  case (4 b)
  then obtain f' where f: "f = Suc f'" by (cases f) auto
  from 4(1) have t: "t = ascii (if b then ''true'' else ''false'')" by simp
  show ?case
    unfolding t f by (cases b) (simp_all only: if_True if_False scan_once_words)
next
  case (5 i)
  then obtain f' where f: "f = Suc f'" by (cases f) auto
  from 5(1,2) have t: "t = int_str i"
    and ne: "\<not> exceeds_digits P (length (dec_nat (nat \<bar>i\<bar>)))"
    by (auto simp: int_repr_def split: if_splits)
  show ?case
    unfolding t f using ne 5(5) by (rule scan_once_int)
next
  case (6 x)
  then obtain f' where f: "f = Suc f'" by (cases f) auto
  from 6(1,2) have t: "t = float_str x" and p: "plain_float P x"
    by auto
  from p consider "x = ascii ''inf''" | "x = ascii ''-inf''"
    | "match_number x = Some (x, True, [])" "float_repr P x = x"
    by (auto simp: plain_float_def)
  then show ?case
  proof cases
    case 1
    have fs: "float_str (ascii ''inf'') = ascii ''Infinity''"
      by (simp add: float_str_def ascii_def)
    show ?thesis
      unfolding t f 1 fs by (rule scan_once_inf(1))
  next
    case 2
    have fs: "float_str (ascii ''-inf'') = ascii ''-Infinity''"
      by (simp add: float_str_def ascii_def)
    show ?thesis
      unfolding t f 2 fs by (rule scan_once_inf(2))
  next
    case 3
    have "scan_once P f m (t @ r) = Inr (PyFloat (float_repr P x), r)"
      unfolding t f float_literal_not_name[OF 3(1)] using 3(1) 6(5) by (rule scan_once_float)
    then show ?thesis
      unfolding 3(2) .
  qed
next
  case (7 s)
  then obtain f' where f: "f = Suc f'" by (cases f) auto
  from 7(1,2) have t: "t = encode_str s" and p: "plain_str s"
    by simp_all
  show ?case
    unfolding t f using p by (rule scan_once_string)
next
  case (8 b)
  then show ?case by simp
next
  case (9 xs)
  then show ?case by simp
next
  case 10
  then show ?case by simp
next
  case (11 x xs)
  from 11(5) have px: "plain P x" and pxs: "plain_list P xs" by simp_all
  from 11(6) have dx: "depth x \<le> m" and dxs: "depth_list xs \<le> m" by simp_all
  from 11(7) obtain f' where f: "f = Suc f'" by (cases f) auto
  from 11(3) show ?case
  proof (cases rule: dumps_list_Cons_Inr)
    case last
    have "length t < f'" using 11(7) f by simp
    with last(2) px dx have "scan_once P f' m (t @ 93 # r) = Inr (x, 93 # r)"
      by (rule 11(1)) simp
    then show ?thesis
      unfolding f last(1) by (simp only: scan_elements_last)
  next
    case (more tx tr)
    from dumps_list_head[OF more(3) pxs more(1)] obtain c w where
      tr: "tr = c # w" and c: "\<not> is_ws c"
      by blast
    have l: "length tx < f'" "Suc (length tr) < f'"
      using 11(7) f more(4) by simp_all
    from more(2) px dx l(1) have "scan_once P f' m (tx @ 44 # 32 # c # w @ 93 # r)
        = Inr (x, 44 # 32 # c # w @ 93 # r)"
      by (rule 11(1)) simp
    then have "scan_elements P f m (t @ 93 # r) acc
        = scan_elements P f' m (tr @ 93 # r) (acc @ [x])"
      unfolding f more(4) tr using c
      by (simp only: append_Cons append_Nil append_assoc scan_elements_more simp_thms)
    also have "\<dots> = Inr (PyList ((acc @ [x]) @ xs), r)"
      using more(3,1) pxs dxs l(2) by (rule 11(2))
    finally show ?thesis by simp
  qed
next
  case 12
  then show ?case by simp
next
  case (13 kv kvs)
  from 13(5) obtain k v where kv: "kv = (PyStr k, v)" and pk: "plain_str k"
    by (cases kv; cases "fst kv") auto
  from 13(5) kv have pv: "plain P v" and pkvs: "plain_items P kvs" by simp_all
  from 13(7) kv have dv: "depth v \<le> m" and dkvs: "depth_items kvs \<le> m" by simp_all
  from 13(6) kv have fresh: "PyStr k \<notin> fst ` set acc'"
    and di: "distinct (map fst ((acc' @ [(PyStr k, v)]) @ kvs))"
    by auto
  from 13(8) obtain f' where f: "f = Suc f'" by (cases f) auto
  from 13(3)[unfolded kv] show ?case
  proof (cases rule: dumps_items_Cons_Inr)
    case (last tv)
    from dumps_head[OF last(2) pv] obtain c w where tv: "tv = c # w" and c: "\<not> is_ws c"
      by blast
    have "length tv < f'" using 13(8) f last(3) by simp
    with last(2) pv dv have "scan_once P f' m (tv @ 125 # r) = Inr (snd kv, 125 # r)"
      unfolding kv snd_conv by (rule 13(1)[unfolded kv snd_conv]) simp
    then have "scan_members P f m (t @ 125 # r) acc'
        = Inr (PyDict (dict_set acc' (PyStr k) v), r)"
      unfolding f last(3) tv kv snd_conv using pk c
      by (simp only: append_Cons append_Nil append_assoc scan_members_last simp_thms)
    then show ?thesis
      unfolding last(1) kv by (simp add: dict_set_fresh[OF fresh])
  next
    case (more tv tr)
    from dumps_head[OF more(2) pv] obtain c w where tv: "tv = c # w" and c: "\<not> is_ws c"
      by blast
    from dumps_items_head[OF more(3) pkvs more(1)] obtain w' where tr: "tr = 34 # w'"
      by blast
    have l: "length tv < f'" "Suc (length tr) < f'"
      using 13(8) f more(4) by simp_all
    from more(2) pv dv l(1) have "scan_once P f' m (tv @ 44 # 32 # 34 # w' @ 125 # r)
        = Inr (v, 44 # 32 # 34 # w' @ 125 # r)"
      by (rule 13(1)[unfolded kv snd_conv]) simp
    then have "scan_members P f m (t @ 125 # r) acc'
        = scan_members P f' m (tr @ 125 # r) (dict_set acc' (PyStr k) v)"
      unfolding f more(4) tv tr using pk c
      by (simp only: append_Cons append_Nil append_assoc scan_members_more simp_thms)
    also have "\<dots> = scan_members P f' m (tr @ 125 # r) (acc' @ [(PyStr k, v)])"
      by (simp only: dict_set_fresh[OF fresh])
    also have "\<dots> = Inr (PyDict ((acc' @ [(PyStr k, v)]) @ kvs), r)"
      using more(3,1) pkvs di dkvs l(2) by (rule 13(2))
    finally show ?thesis
      unfolding kv by simp
  qed
qed

text \<open>The text \<^verbatim>\<open>json.dumps\<close> produces is ASCII, which UTF-8 encodes byte for byte.\<close>

lemma ascii_only_simps [simp]:
  "ascii_only []"
  "ascii_only (c # t) = (c < 128 \<and> ascii_only t)"
  "ascii_only (t @ t') = (ascii_only t \<and> ascii_only t')"
  by (simp_all add: ascii_only_def)

lemma ascii_only_concat: "list_all ascii_only ts \<Longrightarrow> ascii_only (concat ts)"
  by (induction ts) auto

lemma ascii_only_int_str: "ascii_only (int_str i)"
  by (simp add: int_str_def ascii_only_digits dec_nat_digits)

lemma hex_digit_ascii: "d < 16 \<Longrightarrow> hex_digit d < 128"
  by (simp add: hex_digit_def)

lemma ascii_only_hex4: "ascii_only (hex4 c)"
  by (simp add: hex4_def hex_digit_ascii)

lemma ascii_only_escape_point: "ascii_only (escape_point c)"
  by (simp add: escape_point_def ascii_only_hex4)

lemma ascii_only_encode_str: "ascii_only (encode_str s)"
  by (simp add: encode_str_def ascii_only_concat list_all_iff ascii_only_escape_point)

lemma ascii_only_words [simp]:
  "ascii_only (ascii ''null'')" "ascii_only (ascii ''true'')" "ascii_only (ascii ''false'')"
  by (simp_all add: ascii_def)

lemma ascii_only_float_str: "plain_float P x \<Longrightarrow> ascii_only (float_str x)"
proof -
  assume "plain_float P x"
  then consider "x = ascii ''inf''" | "x = ascii ''-inf''" | "match_number x = Some (x, True, [])"
    by (auto simp: plain_float_def)
  then show ?thesis
  proof cases
    case 3
    from match_number_ascii[OF 3] float_literal_not_name[OF 3] show ?thesis
      by simp
  qed (simp_all add: float_str_def ascii_def)
qed

lemma ascii_only_dumps:
  "dumps P n v = Inr t \<Longrightarrow> plain P v \<Longrightarrow> ascii_only t"
  "dumps_list P n xs = Inr t \<Longrightarrow> plain_list P xs \<Longrightarrow> ascii_only t"
  "dumps_items P n kvs = Inr t \<Longrightarrow> plain_items P kvs \<Longrightarrow> ascii_only t"
proof (induction v and xs and kvs arbitrary: n t and n t and n t
    rule: depth_depth_list_depth_items.induct)
  case (1 xs)
  from 1(2) obtain k u where "dumps_list P k xs = Inr u" "t = 91 # u @ [93]"
    by (rule dumps_PyList_Inr)
  with 1(1)[of k u] 1(3) show ?case by simp
next
  case (2 kvs)
  from 2(2) obtain k u where "dumps_items P k kvs = Inr u" "t = 123 # u @ [125]"
    by (rule dumps_PyDict_Inr)
  with 2(1)[of k u] 2(3) show ?case by simp
next
  case (5 i)
  then show ?case
    by (auto simp: int_repr_def ascii_only_int_str split: if_splits)
next
  case (6 x)
  then show ?case
    by (auto simp: ascii_only_float_str)
next
  case (7 s)
  then show ?case
    by (auto simp: ascii_only_encode_str)
next
  case (11 x xs)
  from 11(3) show ?case
  proof (cases rule: dumps_list_Cons_Inr)
    case last
    with 11(1)[of n t] 11(4) show ?thesis by simp
  next
    case (more tx tr)
    with 11(1)[of n tx] 11(2)[of n tr] 11(4) show ?thesis by simp
  qed
next
  case (13 kv kvs)
  from 13(4) obtain k v where kv: "kv = (PyStr k, v)"
    by (cases kv; cases "fst kv") auto
  from 13(4) kv have pv: "plain P v" and pkvs: "plain_items P kvs" by simp_all
  from 13(3)[unfolded kv] show ?case
  proof (cases rule: dumps_items_Cons_Inr)
    case (last tv)
    with 13(1)[unfolded kv snd_conv, of n tv] pv show ?thesis
      by (simp add: ascii_only_encode_str)
  next
    case (more tv tr)
    with 13(1)[unfolded kv snd_conv, of n tv] 13(2)[of n tr] pv pkvs show ?thesis
      by (simp add: ascii_only_encode_str)
  qed
qed auto

lemma utf8_bytes_ascii: "ascii_only t \<Longrightarrow> utf8_bytes t = Some t"
  by (induction t) (auto simp: utf8_unit_def)

lemma utf8_points_ascii: "ascii_only t \<Longrightarrow> utf8_points t = Some t"
  by (induction t) auto

lemma of_char_char_of_ascii: "ascii_only t \<Longrightarrow> map of_char (map char_of t) = t"
  by (induction t) auto

lemma str_encode_ascii: "ascii_only t \<Longrightarrow> str_encode t = Inr (map char_of t)"
  by (simp add: str_encode_def utf8_bytes_ascii)

lemma bytes_decode_ascii: "ascii_only t \<Longrightarrow> bytes_decode (map char_of t) = Inr t"
  unfolding bytes_decode_def by (simp only: of_char_char_of_ascii utf8_points_ascii option.case)

text \<open>\<^verbatim>\<open>json.dumps\<close> returns on a plain value that is not nested too deeply.\<close>

lemma dumps_plain:
  "plain P v \<Longrightarrow> depth v \<le> n \<Longrightarrow> \<exists>t. dumps P n v = Inr t"
  "plain_list P xs \<Longrightarrow> depth_list xs \<le> n \<Longrightarrow> \<exists>t. dumps_list P n xs = Inr t"
  "plain_items P kvs \<Longrightarrow> depth_items kvs \<le> n \<Longrightarrow> \<exists>t. dumps_items P n kvs = Inr t"
proof (induction v and xs and kvs arbitrary: n and n and n
    rule: depth_depth_list_depth_items.induct)
  case (1 xs)
  from 1(3) obtain k where k: "n = Suc k" "depth_list xs \<le> k"
    by (cases n) auto
  from 1(1)[of k] 1(2) k(2) obtain u where "dumps_list P k xs = Inr u"
    by auto
  with k(1) show ?case by simp
next
  case (2 kvs)
  from 2(3) obtain k where k: "n = Suc k" "depth_items kvs \<le> k"
    by (cases n) auto
  from 2(1)[of k] 2(2) k(2) obtain u where "dumps_items P k kvs = Inr u"
    by auto
  with k(1) show ?case by simp
next
  case (5 i)
  then show ?case by (simp add: int_repr_def)
next
  case (11 x xs)
  from 11(1)[of n] 11(3,4) obtain tx where "dumps P n x = Inr tx" by auto
  moreover from 11(2)[of n] 11(3,4) obtain tr where "dumps_list P n xs = Inr tr" by auto
  ultimately show ?case by simp
next
  case (13 kv kvs)
  from 13(3) obtain k v where kv: "kv = (PyStr k, v)"
    by (cases kv; cases "fst kv") auto
  from 13(1)[of n] 13(3,4) kv obtain tv where "dumps P n v = Inr tv" by auto
  moreover from 13(2)[of n] 13(3,4) obtain tr where "dumps_items P n kvs = Inr tr" by auto
  ultimately show ?case unfolding kv by simp
qed auto

text \<open>\<^verbatim>\<open>json.loads\<close> reads the text of a plain value back.\<close>

lemma json_loads_dumps:
  assumes "dumps P n v = Inr t" and "plain P v" and "depth v \<le> decoder_depth P"
  shows "json_loads P t = Inr v"
proof -
  from dumps_head[OF assms(1,2)] obtain c u where t: "t = c # u" and c: "\<not> is_ws c"
    by blast
  have s: "skip_ws t = t"
    unfolding t using c by (rule skip_ws_start)
  have "scan_once P (2 * length t + 2) (decoder_depth P) (t @ []) = Inr (v, [])"
    using assms by (rule scan_dumps(1)) simp_all
  then show ?thesis
    unfolding json_loads_def s by (simp add: skip_ws_def)
qed

lemma payload_plain:
  assumes "plain P (PyDict kvs)" and "depth (PyDict kvs) \<le> encoder_depth P"
  obtains t where "json_dumps P (PyDict kvs) = Inr t" "ascii_only t"
    "payload P (PyDict kvs) = Inr (PyBytes (map char_of t))"
proof -
  from dumps_plain(1)[OF assms] obtain t where t: "json_dumps P (PyDict kvs) = Inr t"
    unfolding json_dumps_def by blast
  then have a: "ascii_only t"
    unfolding json_dumps_def using assms(1) by (rule ascii_only_dumps(1))
  have "payload P (PyDict kvs) = Inr (PyBytes (map char_of t))"
    by (simp only: payload.simps t sum.case str_encode_ascii[OF a])
  with t a show ?thesis ..
qed

lemma parse_data_dumps:
  assumes "json_dumps P v = Inr t" and "plain P v" and "depth v \<le> decoder_depth P"
  shows "parse_data P (map char_of t) = Inr v"
proof -
  have a: "ascii_only t"
    using assms(1,2) unfolding json_dumps_def by (rule ascii_only_dumps(1))
  have "json_loads P t = Inr v"
    using assms unfolding json_dumps_def by (rule json_loads_dumps)
  then show ?thesis
    unfolding parse_data_def bytes_decode_ascii[OF a] by simp
qed

text \<open>
  C8, as amended.  On a client holding a handle, for every dictionary \<open>d\<close> that is plain
  (built from \<^verbatim>\<open>None\<close>, Booleans, integers within the interpreter's digit limit, floats other
  than \<^verbatim>\<open>nan\<close>, strings without a surrogate pair, lists, and dictionaries whose keys are such
  strings) and nested no deeper than \<^verbatim>\<open>json.dumps\<close> and \<^verbatim>\<open>json.loads\<close> can enter, and for
  every node that stores the submitted bytes under the identifier it returns and returns
  them for it: \<^verbatim>\<open>add_data(d)\<close> returns that identifier, and \<^verbatim>\<open>get_data\<close> on it returns \<open>d\<close>.
\<close>

theorem add_data_get_data_round_trip:
  assumes "priv_client (self s) = Some h"
    and "plain (python L) (PyDict kvs)"
    and "depth (PyDict kvs) \<le> encoder_depth (python L)"
    and "depth (PyDict kvs) \<le> decoder_depth (python L)"
    and "\<And>b. payload (python L) (PyDict kvs) = Inr (PyBytes b) \<Longrightarrow>
           client_add_bytes L h (PyBytes b) pn (world s) = (Inr c, w1)
           \<and> client_cat L h c w1 = (Inr b, w2)"
  shows "add_data L (PyDict kvs) pn s = (Inr c, s\<lparr>world := w1\<rparr>)
       \<and> get_data L c (s\<lparr>world := w1\<rparr>) = (Inr (PyDict kvs), s\<lparr>world := w2\<rparr>)"
proof -
  from assms(2,3) obtain t where t: "json_dumps (python L) (PyDict kvs) = Inr t"
    and p: "payload (python L) (PyDict kvs) = Inr (PyBytes (map char_of t))"
    by (rule payload_plain)
  from assms(5)[OF p]
  have n1: "client_add_bytes L h (PyBytes (map char_of t)) pn (world s) = (Inr c, w1)"
    and n2: "client_cat L h c w1 = (Inr (map char_of t), w2)"
    by simp_all
  have d: "parse_data (python L) (map char_of t) = Inr (PyDict kvs)"
    using t assms(2,4) by (rule parse_data_dumps)
  have 1: "add_data L (PyDict kvs) pn s = (Inr c, s\<lparr>world := w1\<rparr>)"
    unfolding add_data_def p using assms(1) n1 by (simp add: on_client_Some)
  have 2: "get_data L c (s\<lparr>world := w1\<rparr>) = (Inr (PyDict kvs), s\<lparr>world := w2\<rparr>)"
    unfolding get_data_def using assms(1) n2 by (simp add: on_client_def d)
  from 1 2 show ?thesis by simp
qed

text \<open>
  C8, witness: the dictionary \<^verbatim>\<open>{"a": 1, "b": [1.5, "x"]}\<close> on the empty node.
\<close>

theorem add_data_get_data_round_trip_witness:
  "add_data (node_library False)
       (PyDict [(PyStr (ascii ''a''), PyInt 1),
                (PyStr (ascii ''b''), PyList [PyFloat (ascii ''1.5''), PyStr (ascii ''x'')])])
       True (connected False empty_node)
     = (Inr (cid_of ''{\"a\": 1, \"b\": [1.5, \"x\"]}''),
        (connected False empty_node)
          \<lparr>world := store_block ''{\"a\": 1, \"b\": [1.5, \"x\"]}'' True
             (world (connected False empty_node))\<rparr>)
   \<and> get_data (node_library False) (cid_of ''{\"a\": 1, \"b\": [1.5, \"x\"]}'')
       ((connected False empty_node)
          \<lparr>world := store_block ''{\"a\": 1, \"b\": [1.5, \"x\"]}'' True
             (world (connected False empty_node))\<rparr>)
     = (Inr (PyDict [(PyStr (ascii ''a''), PyInt 1),
                     (PyStr (ascii ''b''), PyList [PyFloat (ascii ''1.5''), PyStr (ascii ''x'')])]),
        (connected False empty_node)
          \<lparr>world := store_block ''{\"a\": 1, \"b\": [1.5, \"x\"]}'' True
             (world (connected False empty_node))\<rparr>)"
proof -
  let ?L = "node_library False"
  let ?s = "connected False empty_node"
  let ?d = "[(PyStr (ascii ''a''), PyInt 1),
             (PyStr (ascii ''b''), PyList [PyFloat (ascii ''1.5''), PyStr (ascii ''x'')])]"
  let ?b = "''{\"a\": 1, \"b\": [1.5, \"x\"]}''"
  let ?w = "store_block ?b True (world ?s)"
  have h1: "priv_client (self ?s) = Some 1"
    by (simp add: connected_eq empty_node_def)
  have h2: "plain (python ?L) (PyDict ?d)"
    by (simp add: node_eval json_eval plain_float_def)
  have h3: "depth (PyDict ?d) \<le> encoder_depth (python ?L)"
    by (simp add: node_eval)
  have h4: "depth (PyDict ?d) \<le> decoder_depth (python ?L)"
    by (simp add: node_eval)
  have p: "payload (python ?L) (PyDict ?d) = Inr (PyBytes ?b)"
    by (simp add: node_eval json_eval codec_eval)
  have h5: "client_add_bytes ?L 1 (PyBytes b) True (world ?s) = (Inr (cid_of ?b), ?w)
      \<and> client_cat ?L 1 (cid_of ?b) ?w = (Inr b, ?w)"
    if "payload (python ?L) (PyDict ?d) = Inr (PyBytes b)" for b
  proof -
    from that p have "b = ?b" by simp
    then show ?thesis
      by (simp add: node_library_def store_block_def)
  qed
  from add_data_get_data_round_trip[OF h1 h2 h3 h4 h5] show ?thesis
    by simp
qed


text \<open>
  What is not plain does not come back: a surrogate pair comes back as one code point, and
  a tuple as a list.
\<close>

lemma get_data_joins_surrogates:
  "(case add_data (node_library False)
           (PyDict [(PyStr (ascii ''a''), PyStr [0xD83D, 0xDE00])]) True
           (connected False empty_node) of
      (Inr c, s) \<Rightarrow> fst (get_data (node_library False) c s)
    | (Inl e, s) \<Rightarrow> Inl e)
     = Inr (PyDict [(PyStr (ascii ''a''), PyStr [0x1F600])])"
  by (simp add: connected_eq client_eval node_eval json_eval codec_eval hex4_def hex_digit_def
      hex4_val_def hex_val_def low_surrogate_def)

lemma get_data_returns_list_for_tuple:
  "(case add_data (node_library False)
           (PyDict [(PyStr (ascii ''a''), PyTuple [PyInt 1, PyInt 2])]) True
           (connected False empty_node) of
      (Inr c, s) \<Rightarrow> fst (get_data (node_library False) c s)
    | (Inl e, s) \<Rightarrow> Inl e)
     = Inr (PyDict [(PyStr (ascii ''a''), PyList [PyInt 1, PyInt 2])])"
  by (simp add: connected_eq client_eval node_eval json_eval codec_eval)

text \<open>
  C8, counterexample to the claim as stated (every JSON-serializable dictionary comes
  back equal): \<^verbatim>\<open>json.dumps\<close> turns the integer key of \<^verbatim>\<open>{1: 2}\<close> into a string, so
  \<^verbatim>\<open>add_data({1: 2})\<close> stores \<^verbatim>\<open>{"1": 2}\<close> and \<^verbatim>\<open>get_data\<close> returns the dictionary with the
  key \<^verbatim>\<open>"1"\<close>, which is a different dictionary.
\<close>

theorem add_data_int_key_counterexample:
  "fst (add_data (node_library False) (PyDict [(PyInt 1, PyInt 2)]) True
          (connected False empty_node))
     = Inr (cid_of ''{\"1\": 2}'')
   \<and> fst (get_data (node_library False) (cid_of ''{\"1\": 2}'')
          (snd (add_data (node_library False) (PyDict [(PyInt 1, PyInt 2)]) True
                 (connected False empty_node))))
     = Inr (PyDict [(PyStr (ascii ''1''), PyInt 2)])
   \<and> PyDict [(PyStr (ascii ''1''), PyInt 2)] \<noteq> PyDict [(PyInt 1, PyInt 2)]"
  by (simp add: connected_eq client_eval node_eval json_eval codec_eval)

section \<open>Pins\<close>

text \<open>
  C9.  The claim is that after a successful \<^verbatim>\<open>pin(id)\<close> the list of \<^verbatim>\<open>list_pins()\<close> contains
  \<open>id\<close>.  \<^verbatim>\<open>list_pins\<close> reads \<^verbatim>\<open>pin["Hash"]\<close> from each value under \<^verbatim>\<open>Keys\<close>, and the node's
  listing has the identifiers as the keys and \<^verbatim>\<open>{"Type": "recursive"}\<close> as the values: on a
  node holding the block \<^verbatim>\<open>hello\<close>, \<^verbatim>\<open>pin\<close> returns \<^verbatim>\<open>True\<close>, the pin set is that one
  identifier, and \<^verbatim>\<open>list_pins\<close> raises \<^verbatim>\<open>IPFSError\<close> from the \<^verbatim>\<open>KeyError\<close>.
\<close>

theorem list_pins_after_pin_fails:
  "fst (pin (node_library False) (cid_of ''hello'')
         (connected False (store_block ''hello'' False empty_node)))
     = Inr True
   \<and> pinned (world (snd (pin (node_library False) (cid_of ''hello'')
        (connected False (store_block ''hello'' False empty_node))))) = [cid_of ''hello'']
   \<and> fst (list_pins (node_library False) (snd (pin (node_library False) (cid_of ''hello'')
        (connected False (store_block ''hello'' False empty_node)))))
     = Inl (Exn IPFSError (Formatted ''Failed to list pins: '' InterpreterText))"
  by (simp add: connected_eq client_eval node_eval ascii_def)

section \<open>What the operations leave alone\<close>

text \<open>
  C10.  Each of the eight data operations and \<^verbatim>\<open>is_connected\<close> leaves every field of the
  client (\<^verbatim>\<open>host\<close>, \<^verbatim>\<open>port\<close>, \<^verbatim>\<open>protocol\<close>, \<^verbatim>\<open>api_url\<close>, \<^verbatim>\<open>_client\<close>) as it was, whether it returns
  or raises; and a \<^verbatim>\<open>connect\<close> that raises leaves them as they were, \<^verbatim>\<open>_client\<close> included.
\<close>

theorem operations_frame:
  "self (snd (add_file L fp pn s)) = self s
   \<and> self (snd (add_data L d pn s)) = self s
   \<and> self (snd (get_file L c op s)) = self s
   \<and> self (snd (get_data L c s)) = self s
   \<and> self (snd (pin L c s)) = self s
   \<and> self (snd (unpin L c s)) = self s
   \<and> self (snd (list_pins L s)) = self s
   \<and> self (snd (get_stats L s)) = self s
   \<and> self (snd (is_connected L s)) = self s
   \<and> (fst (connect L s) = Inl e \<longrightarrow> self (snd (connect L s)) = self s)"
  using connect_failed_self[of L s e]
  by (simp only: add_file_self add_data_self get_file_self get_data_self pin_self unpin_self
      list_pins_self get_stats_self is_connected_self simp_thms) blast

text \<open>
  C10, witness: a client configured for a host where no node listens; \<^verbatim>\<open>connect\<close> raises
  \<^verbatim>\<open>IPFSConnectionError\<close> and the client is as before.
\<close>

theorem operations_frame_witness:
  "fst (connect (node_library False) unreachable)
     = Inl (Exn IPFSConnectionError
          (Formatted ''Failed to connect to IPFS daemon: '' (Literal ''/http/10.0.0.9/5001'')))
   \<and> self (snd (connect (node_library False) unreachable)) = self unreachable
   \<and> self (snd (get_data (node_library False) ''QmA'' unreachable)) = self unreachable"
proof -
  have h: "fst (connect (node_library False) unreachable)
     = Inl (Exn IPFSConnectionError
          (Formatted ''Failed to connect to IPFS daemon: '' (Literal ''/http/10.0.0.9/5001'')))"
    by (simp add: unreachable_eq connect_def node_library_def port_str_5001 reraise_def)
  from operations_frame[where L = "node_library False" and s = unreachable and c = "''QmA''"
      and e = "Exn IPFSConnectionError
          (Formatted ''Failed to connect to IPFS daemon: '' (Literal ''/http/10.0.0.9/5001''))"]
  show ?thesis using h by blast
qed

end
